theory Spec2Isabelle
  imports Complex_Main
begin

section \<open>Strings and numbers of the host language\<close>

text \<open>
  A source string is a sequence of code units; it is modelled as a \<open>string\<close>, one
  \<open>char\<close> per code unit (the loader reads ASCII/Latin text). \<open>length\<close> is the
  source's \<open>.length\<close>.
\<close>

definition substr :: "string \<Rightarrow> nat \<Rightarrow> nat \<Rightarrow> string" where
  \<comment> \<open>\<open>s.substr(start, len)\<close> for a start and a length that are not negative\<close>
  "substr s start len = take len (drop start s)"

definition is_ws :: "char \<Rightarrow> bool" where
  \<comment> \<open>white space and line terminators among the 8-bit code units:
      TAB, LF, VT, FF, CR, SP, NBSP\<close>
  "is_ws c = ((of_char c :: nat) \<in> {9, 10, 11, 12, 13, 32, 160})"

definition trim :: "string \<Rightarrow> string" where
  "trim s = rev (dropWhile is_ws (rev (dropWhile is_ws s)))"

fun indexOf :: "string \<Rightarrow> char \<Rightarrow> nat option" where
  \<comment> \<open>\<open>s.indexOf(c)\<close>; \<open>None\<close> is the source's \<open>-1\<close>\<close>
  "indexOf [] c = None"
| "indexOf (x # xs) c = (if x = c then Some 0 else map_option Suc (indexOf xs c))"

subsection \<open>parseInt\<close>

text \<open>
  \<open>parseInt(s)\<close> with no radix: leading white space is skipped, then an optional sign,
  then an optional \<open>0x\<close>/\<open>0X\<close> prefix that selects radix 16, then the longest run of
  digits of the radix. No digit at all gives \<open>NaN\<close>, which is \<open>None\<close> here. The loader only
  calls it on windows of at most eight characters, whose values a double holds exactly.
\<close>

definition digit_val :: "char \<Rightarrow> nat option" where
  "digit_val c =
     (let n = (of_char c :: nat) in
      if 48 \<le> n \<and> n \<le> 57 then Some (n - 48)
      else if 97 \<le> n \<and> n \<le> 122 then Some (n - 87)
      else if 65 \<le> n \<and> n \<le> 90 then Some (n - 55)
      else None)"

definition is_digit :: "nat \<Rightarrow> char \<Rightarrow> bool" where
  "is_digit radix c = (case digit_val c of None \<Rightarrow> False | Some d \<Rightarrow> d < radix)"

definition digits_value :: "nat \<Rightarrow> string \<Rightarrow> nat" where
  "digits_value radix ds = foldl (\<lambda>a c. a * radix + the (digit_val c)) 0 ds"

definition parseInt :: "string \<Rightarrow> int option" where
  "parseInt s =
     (let s1 = dropWhile is_ws s;
          neg = (s1 \<noteq> [] \<and> hd s1 = CHR ''-'');
          s2 = (if s1 \<noteq> [] \<and> (hd s1 = CHR ''-'' \<or> hd s1 = CHR ''+'') then tl s1 else s1);
          hex = (take 2 s2 = ''0x'' \<or> take 2 s2 = ''0X'');
          radix = (if hex then 16 else 10);
          s3 = (if hex then drop 2 s2 else s2);
          ds = takeWhile (is_digit radix) s3
      in if ds = [] then None
         else Some (if neg then - int (digits_value radix ds) else int (digits_value radix ds)))"

subsection \<open>Numbers\<close>

text \<open>
  A source number is a double. \<open>NaN\<close> and the two infinities are kept apart; a finite
  double is represented by the rational it denotes, and arithmetic on finite values is exact.
  The model therefore agrees with the source wherever the exact result is itself a double,
  in particular on integers of magnitude below \<open>2^53\<close>; rounding, overflow to infinity and
  the sign of zero are not modelled, and neither are the limits of the host on the length
  of an array.
\<close>

datatype jsnum = NaN | PInf | NInf | Fin rat

fun js_neg :: "jsnum \<Rightarrow> jsnum" where
  "js_neg NaN = NaN"
| "js_neg PInf = NInf"
| "js_neg NInf = PInf"
| "js_neg (Fin a) = Fin (- a)"

fun js_add :: "jsnum \<Rightarrow> jsnum \<Rightarrow> jsnum" where
  "js_add NaN _ = NaN"
| "js_add _ NaN = NaN"
| "js_add PInf NInf = NaN"
| "js_add NInf PInf = NaN"
| "js_add PInf _ = PInf"
| "js_add _ PInf = PInf"
| "js_add NInf _ = NInf"
| "js_add _ NInf = NInf"
| "js_add (Fin a) (Fin b) = Fin (a + b)"

definition js_sub :: "jsnum \<Rightarrow> jsnum \<Rightarrow> jsnum" where
  "js_sub a b = js_add a (js_neg b)"

fun js_sign :: "jsnum \<Rightarrow> int" where
  "js_sign NaN = 0"
| "js_sign PInf = 1"
| "js_sign NInf = - 1"
| "js_sign (Fin a) = (if a < 0 then - 1 else if a = 0 then 0 else 1)"

fun js_mul :: "jsnum \<Rightarrow> jsnum \<Rightarrow> jsnum" where
  "js_mul NaN _ = NaN"
| "js_mul _ NaN = NaN"
| "js_mul (Fin a) (Fin b) = Fin (a * b)"
| "js_mul a b =
     (if js_sign a * js_sign b = 0 then NaN
      else if js_sign a * js_sign b < 0 then NInf else PInf)"

fun js_lt :: "jsnum \<Rightarrow> jsnum \<Rightarrow> bool" where
  \<comment> \<open>the source's \<open><\<close>: false as soon as one side is \<open>NaN\<close>\<close>
  "js_lt NaN _ = False"
| "js_lt _ NaN = False"
| "js_lt (Fin a) (Fin b) = (a < b)"
| "js_lt NInf b = (b \<noteq> NInf)"
| "js_lt a PInf = (a \<noteq> PInf)"
| "js_lt _ _ = False"

definition js_nat :: "nat \<Rightarrow> jsnum" where
  \<comment> \<open>a loop counter or a literal of the source, as a number\<close>
  "js_nat n = Fin (of_nat n)"

subsection \<open>parseFloat\<close>

text \<open>
  \<open>parseFloat(s)\<close>: leading white space is skipped and the longest prefix that is a
  decimal literal is read: an optional sign, then \<open>Infinity\<close> or digits with an optional
  fraction and an optional exponent part. No such prefix gives \<open>NaN\<close>.
\<close>

definition is_dec :: "char \<Rightarrow> bool" where
  "is_dec c = is_digit 10 c"

definition exponent_part :: "string \<Rightarrow> int" where
  \<comment> \<open>the exponent read from what follows the mantissa; 0 when no complete exponent
      part follows\<close>
  "exponent_part r =
     (if r \<noteq> [] \<and> (hd r = CHR ''e'' \<or> hd r = CHR ''E'') then
        (let r1 = tl r;
             neg = (r1 \<noteq> [] \<and> hd r1 = CHR ''-'');
             r2 = (if r1 \<noteq> [] \<and> (hd r1 = CHR ''-'' \<or> hd r1 = CHR ''+'') then tl r1 else r1);
             ds = takeWhile is_dec r2
         in if ds = [] then 0
            else if neg then - int (digits_value 10 ds) else int (digits_value 10 ds))
      else 0)"

definition scale10 :: "rat \<Rightarrow> int \<Rightarrow> rat" where
  "scale10 q e = (if 0 \<le> e then q * 10 ^ nat e else q / 10 ^ nat (- e))"

definition parseFloat :: "string \<Rightarrow> jsnum" where
  "parseFloat s =
     (let s1 = dropWhile is_ws s;
          neg = (s1 \<noteq> [] \<and> hd s1 = CHR ''-'');
          s2 = (if s1 \<noteq> [] \<and> (hd s1 = CHR ''-'' \<or> hd s1 = CHR ''+'') then tl s1 else s1)
      in if take 8 s2 = ''Infinity'' then (if neg then NInf else PInf)
         else
           (let ip = takeWhile is_dec s2;
                r1 = dropWhile is_dec s2;
                dot = (r1 \<noteq> [] \<and> hd r1 = CHR ''.'');
                fp = (if dot then takeWhile is_dec (tl r1) else []);
                r2 = (if dot then dropWhile is_dec (tl r1) else r1)
            in if ip = [] \<and> fp = [] then NaN
               else
                 (let mant = of_nat (digits_value 10 ip)
                             + of_nat (digits_value 10 fp) / 10 ^ length fp;
                      v = scale10 mant (exponent_part r2)
                  in Fin (if neg then - v else v))))"

subsection \<open>Number to string\<close>

definition digit_char :: "nat \<Rightarrow> char" where
  "digit_char d = char_of (48 + d)"

fun digits :: "nat \<Rightarrow> string" where
  "digits n = (if n < 10 then [digit_char n] else digits (n div 10) @ [digit_char (n mod 10)])"

declare digits.simps [simp del]

definition int_toString :: "int option \<Rightarrow> string" where
  \<comment> \<open>\<open>n.toString()\<close> of a number that is an integer or \<open>NaN\<close> (\<open>None\<close>)\<close>
  "int_toString n =
     (case n of
        None \<Rightarrow> ''NaN''
      | Some k \<Rightarrow> (if k < 0 then CHR ''-'' # digits (nat (- k)) else digits (nat k)))"

section \<open>Field decoder\<close>

definition substr_len :: "int option \<Rightarrow> nat" where
  \<comment> \<open>the length argument of \<open>substr\<close>: \<open>NaN\<close> counts as 0, a negative length as 0\<close>
  "substr_len n = (case n of None \<Rightarrow> 0 | Some k \<Rightarrow> nat k)"

definition replace_D :: "string \<Rightarrow> string" where
  \<comment> \<open>\<open>p.replace(/D/g, "e")\<close>\<close>
  "replace_D p = map (\<lambda>c. if c = CHR ''D'' then CHR ''e'' else c) p"

definition parseIgesFloat :: "string \<Rightarrow> jsnum" where
  "parseIgesFloat p = parseFloat (replace_D p)"

definition parseIgesString :: "string \<Rightarrow> string option" where
  \<comment> \<open>\<open>None\<close> is the source's \<open>undefined\<close>; \<open>substr\<close> and \<open>parseInt\<close> never throw,
      so the \<open>catch\<close> branch is dead\<close>
  "parseIgesString str =
     (case indexOf str CHR ''H'' of
        None \<Rightarrow> None
      | Some d \<Rightarrow>
          (let digit = substr str 0 d;
               value = substr str (d + 1) (substr_len (parseInt digit))
           in Some value))"

section \<open>Data model\<close>

text \<open>
  A numeric attribute is the result of \<open>parseInt\<close>: an integer, or \<open>NaN\<close> (\<open>None\<close>).
\<close>

record EntityAttribute =
  entityType :: "int option"
  entityIndex :: "int option"
  igesVersion :: "int option"
  lineType :: "int option"
  level :: "int option"
  view :: "int option"
  transMatrix :: "int option"
  labelDisp :: "int option"
  status :: string
  sequenceNumber :: "int option"
  lineWidth :: "int option"
  color :: "int option"
  paramLine :: "int option"
  formNumber :: "int option"
  entityName :: string
  entitySub :: "int option"

record Entity =
  etype :: string
  attr :: EntityAttribute
  params :: "jsnum list"

definition default_attribute :: EntityAttribute where
  \<comment> \<open>the constructor's default argument \<open>{ entityType: 0 }\<close>; its other fields are
      undefined at this point and all of them are assigned by \<open>parseDirection\<close>\<close>
  "default_attribute =
     \<lparr>entityType = Some 0, entityIndex = None, igesVersion = None, lineType = None,
      level = None, view = None, transMatrix = None, labelDisp = None, status = [],
      sequenceNumber = None, lineWidth = None, color = None, paramLine = None,
      formNumber = None, entityName = [], entitySub = None\<rparr>"

definition new_Entity :: "EntityAttribute \<Rightarrow> jsnum list \<Rightarrow> Entity" where
  \<comment> \<open>the constructor: the type is read off the attribute once, at construction\<close>
  "new_Entity attribute ps =
     \<lparr>etype = int_toString (entityType attribute), attr = attribute, params = ps\<rparr>"

text \<open>
  The accumulator object of the parser. A string field that is still undefined is \<open>None\<close>;
  a line count is undefined (\<open>None\<close>) until \<open>parseTerminate\<close> stores the result of
  \<open>parseInt\<close> in it.
\<close>

record IGES =
  fieldDelimiter :: string
  termDelimiter :: string
  entities :: "Entity list"
  comment :: "string option"
  exportID :: "string option"
  fileName :: "string option"
  systemID :: "string option"
  translateVer :: "string option"
  integerBits :: "string option"
  singleExpBits :: "string option"
  singleMantissaBits :: "string option"
  doubleExpBits :: "string option"
  doubleMantissaBits :: "string option"
  receiveID :: "string option"
  scale :: "string option"
  unitFlag :: "string option"
  unit :: "string option"
  maxStep :: "string option"
  maxWidth :: "string option"
  createDate :: "string option"
  resolution :: "string option"
  maxValue :: "string option"
  createUser :: "string option"
  createOrg :: "string option"
  igesVer :: "string option"
  formatCode :: "string option"
  lastModifiedDate :: "string option"
  lineNum_S :: "int option"
  lineNum_G :: "int option"
  lineNum_D :: "int option"
  lineNum_P :: "int option"

definition new_IGES :: IGES where
  "new_IGES =
     \<lparr>fieldDelimiter = '','', termDelimiter = '';'', entities = [], comment = None,
      exportID = None, fileName = None, systemID = None, translateVer = None,
      integerBits = None, singleExpBits = None, singleMantissaBits = None,
      doubleExpBits = None, doubleMantissaBits = None, receiveID = None, scale = None,
      unitFlag = None, unit = None, maxStep = None, maxWidth = None, createDate = None,
      resolution = None, maxValue = None, createUser = None, createOrg = None,
      igesVer = None, formatCode = None, lastModifiedDate = None, lineNum_S = None,
      lineNum_G = None, lineNum_D = None, lineNum_P = None\<rparr>"

datatype error = InconsistentEntityCount

section \<open>Section parsers\<close>

fun split_from :: "string \<Rightarrow> string \<Rightarrow> string \<Rightarrow> string list" where
  "split_from sep cur [] = [cur]"
| "split_from sep cur (c # cs) =
     (if sep \<noteq> [] \<and> take (length sep) (c # cs) = sep
      then cur # split_from sep [] (drop (length sep - 1) cs)
      else split_from sep (cur @ [c]) cs)"

definition js_split :: "string \<Rightarrow> string \<Rightarrow> string list" where
  \<comment> \<open>\<open>s.split(sep)\<close> with a string separator; the empty separator splits into code units\<close>
  "js_split s sep = (if sep = [] then map (\<lambda>c. [c]) s else split_from sep [] s)"

definition or_default :: "string option \<Rightarrow> string \<Rightarrow> string" where
  \<comment> \<open>\<open>x || d\<close>: undefined and the empty string give the default\<close>
  "or_default x d = (case x of None \<Rightarrow> d | Some v \<Rightarrow> if v = [] then d else v)"

definition field_at :: "string list \<Rightarrow> nat \<Rightarrow> string option" where
  \<comment> \<open>\<open>fields[k]\<close>, undefined out of range\<close>
  "field_at fs k = (if k < length fs then Some (fs ! k) else None)"

definition hollerith_at :: "string list \<Rightarrow> nat \<Rightarrow> string option" where
  \<comment> \<open>\<open>parseIgesString(fields[k] ?? "")\<close>\<close>
  "hollerith_at fs k =
     parseIgesString (case field_at fs k of None \<Rightarrow> [] | Some f \<Rightarrow> f)"

definition parseStart :: "string \<Rightarrow> IGES \<Rightarrow> IGES" where
  "parseStart data st = st\<lparr>comment := Some data\<rparr>"

definition parseGlobal :: "string \<Rightarrow> IGES \<Rightarrow> IGES" where
  "parseGlobal data st =
     (let comma_first = (data \<noteq> [] \<and> hd data = CHR '','');
          fd = (if \<not> comma_first then or_default (parseIgesString data) '',''
                else fieldDelimiter st);
          fields0 = js_split data fd;
          fs = (if \<not> comma_first then drop 1 fields0 else fields0)
      in st\<lparr>fieldDelimiter := fd,
             termDelimiter := or_default (hollerith_at fs 1) '';'',
             exportID := hollerith_at fs 2,
             fileName := hollerith_at fs 3,
             systemID := hollerith_at fs 4,
             translateVer := hollerith_at fs 5,
             integerBits := field_at fs 6,
             singleExpBits := field_at fs 7,
             singleMantissaBits := field_at fs 8,
             doubleExpBits := field_at fs 9,
             doubleMantissaBits := field_at fs 10,
             receiveID := hollerith_at fs 11,
             scale := field_at fs 12,
             unitFlag := field_at fs 13,
             unit := hollerith_at fs 14,
             maxStep := field_at fs 15,
             maxWidth := field_at fs 16,
             createDate := hollerith_at fs 17,
             resolution := field_at fs 18,
             maxValue := field_at fs 19,
             createUser := hollerith_at fs 20,
             createOrg := hollerith_at fs 21,
             igesVer := field_at fs 22,
             formatCode := field_at fs 23,
             lastModifiedDate := hollerith_at fs 24\<rparr>)"

definition directory_entity :: "string \<Rightarrow> Entity" where
  \<comment> \<open>the body of the loop of \<open>parseDirection\<close>: \<open>new Entity()\<close>, then the fields of its
      attribute are assigned from the 160-character item\<close>
  "directory_entity item =
     (let entity = new_Entity default_attribute []
      in entity\<lparr>attr := (attr entity)
           \<lparr>entityType := parseInt (substr item 0 8),
            entityIndex := parseInt (substr item 8 8),
            igesVersion := parseInt (substr item 16 8),
            lineType := parseInt (substr item 24 8),
            level := parseInt (substr item 32 8),
            view := parseInt (substr item 40 8),
            transMatrix := parseInt (substr item 48 8),
            labelDisp := parseInt (substr item 56 8),
            status := substr item 64 8,
            sequenceNumber := parseInt (substr item 73 7),
            lineWidth := parseInt (substr item 88 8),
            color := parseInt (substr item 96 8),
            paramLine := parseInt (substr item 104 8),
            formNumber := parseInt (substr item 112 8),
            entityName := trim (substr item 136 8),
            entitySub := parseInt (substr item 144 8)\<rparr>\<rparr>)"

function direction_loop :: "string \<Rightarrow> nat \<Rightarrow> Entity list \<Rightarrow> Entity list" where
  "direction_loop data i ents =
     (if i < length data
      then direction_loop data (i + 160) (ents @ [directory_entity (substr data i 160)])
      else ents)"
  by pat_completeness auto
termination
  by (relation "measure (\<lambda>(data, i, ents). length data - i)") auto

declare direction_loop.simps [simp del]

definition parseDirection :: "string \<Rightarrow> IGES \<Rightarrow> IGES" where
  "parseDirection data st = st\<lparr>entities := direction_loop data 0 (entities st)\<rparr>"

definition set_params :: "Entity \<Rightarrow> string list \<Rightarrow> Entity" where
  \<comment> \<open>\<open>entity.type = paramArray.shift() || ""\<close>, then the remaining tokens as floats\<close>
  "set_params entity paramArray =
     entity\<lparr>etype := (case paramArray of [] \<Rightarrow> [] | t # _ \<Rightarrow> t),
            params := map parseIgesFloat (tl paramArray)\<rparr>"

function parameter_loop :: "string list list \<Rightarrow> nat \<Rightarrow> Entity list \<Rightarrow> Entity list" where
  "parameter_loop splitParams i ents =
     (if i < length splitParams
      then parameter_loop splitParams (Suc i)
             (if i < length ents then ents[i := set_params (ents ! i) (splitParams ! i)]
              else ents)
      else ents)"
  by pat_completeness auto
termination
  by (relation "measure (\<lambda>(splitParams, i, ents). length splitParams - i)") auto

declare parameter_loop.simps [simp del]

definition parseParameter :: "string \<Rightarrow> IGES \<Rightarrow> IGES" where
  "parseParameter data st =
     (let ps = butlast (js_split data '';'');
          splitParams = map (\<lambda>item. js_split item '','') ps
      in st\<lparr>entities := parameter_loop splitParams 0 (entities st)\<rparr>)"

definition count_mismatch :: "nat \<Rightarrow> int option \<Rightarrow> bool" where
  \<comment> \<open>\<open>lineNum_D && entities.length !== lineNum_D / 2\<close>: \<open>NaN\<close> and 0 are falsy, and the
      division is that of numbers, not of integers\<close>
  "count_mismatch n d =
     (case d of
        None \<Rightarrow> False
      | Some k \<Rightarrow> k \<noteq> 0 \<and> (of_nat n :: rat) \<noteq> of_int k / 2)"

definition parseTerminate :: "string \<Rightarrow> IGES \<Rightarrow> error + IGES" where
  "parseTerminate data st =
     (let st' = st\<lparr>lineNum_S := parseInt (substr data 1 7),
                   lineNum_G := parseInt (substr data 9 7),
                   lineNum_D := parseInt (substr data 17 7),
                   lineNum_P := parseInt (substr data 25 7)\<rparr>
      in if count_mismatch (length (entities st')) (lineNum_D st')
         then Inl InconsistentEntityCount
         else Inr st')"

section \<open>Section splitter\<close>

text \<open>
  The diagnostics channel is the console; a diagnostic records which message was written and
  the values it was written with.
\<close>

datatype diag =
    LineTooShort nat nat string
  | UnknownSectionType nat char
  | UnsupportedFormNumber "int option"
  | LineUnsupportedFormNumber "int option"
  | TransMatrixUnsupportedFormNumber "int option"
  | UncomplimentEntityType string

record sections =
  startSec :: string
  globalSec :: string
  dirSec :: string
  paramSec :: string
  terminateSec :: string

definition no_sections :: sections where
  "no_sections = \<lparr>startSec = [], globalSec = [], dirSec = [], paramSec = [], terminateSec = []\<rparr>"

fun split_lines_from :: "string \<Rightarrow> string \<Rightarrow> string list" where
  \<comment> \<open>\<open>data.split(/\r?\n/)\<close>: a line feed, with the carriage return right before it
      if there is one, ends a piece\<close>
  "split_lines_from cur [] = [cur]"
| "split_lines_from cur (c # cs) =
     (if c = CHR 0x0A then cur # split_lines_from [] cs
      else if c = CHR 0x0D \<and> cs \<noteq> [] \<and> hd cs = CHR 0x0A
        then cur # split_lines_from [] (tl cs)
      else split_lines_from (cur @ [c]) cs)"

definition physical_lines :: "string \<Rightarrow> string list" where
  "physical_lines data = filter (\<lambda>item. length item > 0) (split_lines_from [] data)"

definition scan_line :: "nat \<Rightarrow> string \<Rightarrow> sections \<times> diag list \<Rightarrow> sections \<times> diag list" where
  \<comment> \<open>one turn of the loop over the lines, for the line at index \<open>i\<close>\<close>
  "scan_line i l st =
     (let secs = fst st; warns = snd st in
      if length l < 73 then (secs, warns @ [LineTooShort i (length l) (take 50 l)])
      else
        (let currentSection = l ! 72; line = substr l 0 80 in
         if currentSection = CHR ''S''
           then (secs\<lparr>startSec := startSec secs @ trim (substr line 0 72)\<rparr>, warns)
         else if currentSection = CHR ''G''
           then (secs\<lparr>globalSec := globalSec secs @ trim (substr line 0 72)\<rparr>, warns)
         else if currentSection = CHR ''D''
           then (secs\<lparr>dirSec := dirSec secs @ line\<rparr>, warns)
         else if currentSection = CHR ''P''
           then (secs\<lparr>paramSec := paramSec secs @ trim (substr line 0 64)\<rparr>, warns)
         else if currentSection = CHR ''T''
           then (secs\<lparr>terminateSec := terminateSec secs @ trim (substr line 0 72)\<rparr>, warns)
         else (secs, warns @ [UnknownSectionType i currentSection])))"

fun scan_lines :: "nat \<Rightarrow> string list \<Rightarrow> sections \<times> diag list \<Rightarrow> sections \<times> diag list" where
  "scan_lines i [] st = st"
| "scan_lines i (l # ls) st = scan_lines (Suc i) ls (scan_line i l st)"

section \<open>Geometry synthesizer\<close>

text \<open>
  A primitive is what the loader hands to the scene-graph library: the points of a line
  object, the positions of a points object, or the arguments of the ellipse curve whose 50
  divisions the library samples (centre, start vector and end vector, whose polar angles are
  the start and end angle; the radii are 1, the winding counter-clockwise, the rotation 0).
  Material, position and rotation are the same constants for every primitive and are left
  out, as is the random name of the group.
\<close>

type_synonym vec3 = "jsnum \<times> jsnum \<times> jsnum"

datatype primitive =
    ArcCurve jsnum jsnum "jsnum \<times> jsnum" "jsnum \<times> jsnum"
  | Polyline "vec3 list"
  | PointCloud "vec3 list"

record Group =
  children :: "primitive list"

record world =
  geometry :: Group
  console :: "diag list"

definition add_child :: "primitive \<Rightarrow> world \<Rightarrow> world" where
  \<comment> \<open>\<open>geometry.add(mesh)\<close>\<close>
  "add_child m w = w\<lparr>geometry := (geometry w)\<lparr>children := children (geometry w) @ [m]\<rparr>\<rparr>"

definition log_diag :: "diag \<Rightarrow> world \<Rightarrow> world" where
  "log_diag d w = w\<lparr>console := console w @ [d]\<rparr>"

definition num_at :: "jsnum list \<Rightarrow> nat \<Rightarrow> jsnum" where
  \<comment> \<open>\<open>Number(entityParams[k])\<close>: an index out of range reads undefined, whose number
      is \<open>NaN\<close>\<close>
  "num_at ps k = (if k < length ps then ps ! k else NaN)"

definition num_at_js :: "jsnum list \<Rightarrow> jsnum \<Rightarrow> jsnum" where
  \<comment> \<open>the same with a computed index: only an integer from 0 up to the length reads
      an element\<close>
  "num_at_js ps idx =
     (case idx of
        Fin q \<Rightarrow> (if q = of_int \<lfloor>q\<rfloor> \<and> 0 \<le> q then num_at ps (nat \<lfloor>q\<rfloor>) else NaN)
      | _ \<Rightarrow> NaN)"

partial_function (option) push_loop ::
  "jsnum \<Rightarrow> (nat \<Rightarrow> 'a) \<Rightarrow> nat \<Rightarrow> 'a list \<Rightarrow> 'a list option" where
  \<comment> \<open>\<open>for (; i < bound; i++) points.push(body(i))\<close>; \<open>None\<close> when the loop never
      exits\<close>
  "push_loop bound body i points =
     (if js_lt (js_nat i) bound then push_loop bound body (Suc i) (points @ [body i])
      else Some points)"

declare push_loop.simps [code]

definition drawCArc :: "Entity \<Rightarrow> world \<Rightarrow> world" where
  "drawCArc entity w =
     (let ps = params entity;
          startVector = (js_sub (num_at ps 3) (num_at ps 1), js_sub (num_at ps 4) (num_at ps 2));
          endVector = (js_sub (num_at ps 5) (num_at ps 1), js_sub (num_at ps 6) (num_at ps 2))
      in add_child (ArcCurve (num_at ps 1) (num_at ps 2) startVector endVector) w)"

definition drawCCurve :: "Entity \<Rightarrow> world \<Rightarrow> world" where
  "drawCCurve entity w = w"

definition drawPath :: "Entity \<Rightarrow> world \<Rightarrow> world option" where
  "drawPath entity w =
     (let ps = params entity; form = int_toString (formNumber (attr entity)) in
      if form = ''12'' then
        map_option (\<lambda>points. add_child (Polyline points) w)
          (push_loop (num_at ps 1)
             (\<lambda>i. (num_at ps (2 + 3 * i), num_at ps (3 + 3 * i), num_at ps (4 + 3 * i))) 0 [])
      else if form = ''40'' then
        map_option (\<lambda>points. add_child (Polyline points) w)
          (push_loop (num_at ps 1)
             (\<lambda>i. (num_at ps (3 + 2 * i), num_at ps (4 + 2 * i), num_at ps 2)) 0 [])
      else if form = ''63'' then
        map_option (\<lambda>points. add_child (Polyline points) w)
          (push_loop (num_at ps 1)
             (\<lambda>i. (num_at ps (3 + 2 * i), num_at ps (4 + 2 * i), js_nat 0)) 0 [])
      else Some (add_child (Polyline []) (log_diag (UnsupportedFormNumber (formNumber (attr entity))) w)))"

definition drawPlane :: "Entity \<Rightarrow> world \<Rightarrow> world" where
  "drawPlane entity w = w"

definition drawLine :: "Entity \<Rightarrow> world \<Rightarrow> world" where
  "drawLine entity w =
     (let ps = params entity; form = int_toString (formNumber (attr entity));
          ends = [(num_at ps 0, num_at ps 1, num_at ps 2), (num_at ps 3, num_at ps 4, num_at ps 5)]
      in if form = ''0'' \<or> form = ''2'' then add_child (Polyline ends) w
         else if formNumber (attr entity) = None then add_child (Polyline ends) w
         else add_child (Polyline [])
                (log_diag (LineUnsupportedFormNumber (formNumber (attr entity))) w))"

definition drawPoint :: "Entity \<Rightarrow> world \<Rightarrow> world" where
  \<comment> \<open>the flat array \<open>[x, y, z]\<close> with item size 3 is one position\<close>
  "drawPoint entity w =
     (let ps = params entity
      in add_child (PointCloud [(num_at ps 0, num_at ps 1, num_at ps 2)]) w)"

definition drawRSurface :: "Entity \<Rightarrow> world \<Rightarrow> world" where
  "drawRSurface entity w = w"

definition drawTCylinder :: "Entity \<Rightarrow> world \<Rightarrow> world" where
  "drawTCylinder entity w = w"

definition drawTransMatrix :: "Entity \<Rightarrow> world \<Rightarrow> world" where
  "drawTransMatrix entity w =
     (if int_toString (formNumber (attr entity)) = ''0'' then w
      else log_diag (TransMatrixUnsupportedFormNumber (formNumber (attr entity))) w)"

definition drawRBSplineCurve :: "Entity \<Rightarrow> world \<Rightarrow> world option" where
  "drawRBSplineCurve entity w =
     (let ps = params entity; form = int_toString (formNumber (attr entity));
          K = num_at ps 0;
          M = num_at ps 1;
          N = js_sub (js_add (js_nat 1) K) M;
          A = js_add N (js_mul (js_nat 2) M)
      in if form = ''0'' \<or> form = ''1'' then
           map_option (\<lambda>points. add_child (Polyline points) w)
             (push_loop (js_add K (js_nat 1))
                (\<lambda>i. (num_at_js ps (js_add (js_add (js_add (js_mul (js_nat i) (js_nat 3)) (js_nat 8)) A) K),
                      num_at_js ps (js_add (js_add (js_add (js_mul (js_nat i) (js_nat 3)) (js_nat 9)) A) K),
                      num_at_js ps (js_add (js_add (js_add (js_mul (js_nat i) (js_nat 3)) (js_nat 10)) A) K)))
                0 [])
         else Some (add_child (Polyline []) w))"

definition drawRBSplineSurface :: "Entity \<Rightarrow> world \<Rightarrow> world" where
  "drawRBSplineSurface entity w = w"

definition drawCurveOnPSurface :: "Entity \<Rightarrow> world \<Rightarrow> world" where
  "drawCurveOnPSurface entity w = w"

definition drawTPSurface :: "Entity \<Rightarrow> world \<Rightarrow> world" where
  "drawTPSurface entity w = w"

definition drawGeneralNote :: "Entity \<Rightarrow> world \<Rightarrow> world" where
  "drawGeneralNote entity w = w"

definition drawLeaderArrow :: "Entity \<Rightarrow> world \<Rightarrow> world" where
  "drawLeaderArrow entity w = w"

definition drawLinearDimension :: "Entity \<Rightarrow> world \<Rightarrow> world" where
  "drawLinearDimension entity w = w"

definition drawColor :: "Entity \<Rightarrow> world \<Rightarrow> world" where
  "drawColor entity w = w"

definition drawAInstance :: "Entity \<Rightarrow> world \<Rightarrow> world" where
  "drawAInstance entity w = w"

definition propertyEntity :: "Entity \<Rightarrow> world \<Rightarrow> world" where
  "propertyEntity entity w = w"

definition draw_entity :: "Entity \<Rightarrow> world \<Rightarrow> world option" where
  \<comment> \<open>the \<open>switch (entity.type)\<close> of the loop over the entities\<close>
  "draw_entity entity w =
     (let t = etype entity in
      if t = ''100'' then Some (drawCArc entity w)
      else if t = ''102'' then Some (drawCCurve entity w)
      else if t = ''106'' then drawPath entity w
      else if t = ''108'' then Some (drawPlane entity w)
      else if t = ''110'' then Some (drawLine entity w)
      else if t = ''116'' then Some (drawPoint entity w)
      else if t = ''120'' then Some (drawRSurface entity w)
      else if t = ''122'' then Some (drawTCylinder entity w)
      else if t = ''124'' then Some (drawTransMatrix entity w)
      else if t = ''126'' then drawRBSplineCurve entity w
      else if t = ''128'' then Some (drawRBSplineSurface entity w)
      else if t = ''142'' then Some (drawCurveOnPSurface entity w)
      else if t = ''144'' then Some (drawTPSurface entity w)
      else if t = ''212'' then Some (drawGeneralNote entity w)
      else if t = ''214'' then Some (drawLeaderArrow entity w)
      else if t = ''216'' then Some (drawLinearDimension entity w)
      else if t = ''314'' then Some (drawColor entity w)
      else if t = ''402'' then Some (drawAInstance entity w)
      else if t = ''406'' then Some (propertyEntity entity w)
      else Some (log_diag (UncomplimentEntityType t) w))"

fun draw_entities :: "Entity list \<Rightarrow> world \<Rightarrow> world option" where
  "draw_entities [] w = Some w"
| "draw_entities (entity # rest) w =
     (case draw_entity entity w of None \<Rightarrow> None | Some w' \<Rightarrow> draw_entities rest w')"

section \<open>The parse\<close>

text \<open>
  A run of \<open>parse\<close> that returns gives the group or the error it throws, together with
  what it wrote to the console; a run that does not return (a path or spline loop whose
  bound is infinite never exits) is \<open>None\<close>.
\<close>

definition load_sections :: "sections \<Rightarrow> error + IGES" where
  \<comment> \<open>the five section parsers, in the order of the calls\<close>
  "load_sections secs =
     parseTerminate (terminateSec secs)
       (parseParameter (paramSec secs)
          (parseDirection (dirSec secs)
             (parseGlobal (globalSec secs)
                (parseStart (startSec secs) new_IGES))))"

definition synthesize :: "sections \<Rightarrow> diag list \<Rightarrow> (diag list \<times> (error + Group)) option" where
  "synthesize secs warns =
     (case load_sections secs of
        Inl e \<Rightarrow> Some (warns, Inl e)
      | Inr iges \<Rightarrow>
          map_option (\<lambda>w. (console w, Inr (geometry w)))
            (draw_entities (entities iges) \<lparr>geometry = \<lparr>children = []\<rparr>, console = warns\<rparr>))"

definition parseIges :: "string \<Rightarrow> (diag list \<times> (error + Group)) option" where
  "parseIges data =
     (let st = scan_lines 0 (physical_lines data) (no_sections, [])
      in synthesize (fst st) (snd st))"

text \<open>
  What a run assembles before it synthesizes: the section buffers of the input, the
  entities after the directory and parameter parsers have run, and the directory line count
  that the terminate section declares.
\<close>

definition sections_of :: "string \<Rightarrow> sections" where
  "sections_of data = fst (scan_lines 0 (physical_lines data) (no_sections, []))"

definition assembled_entities :: "sections \<Rightarrow> Entity list" where
  "assembled_entities secs =
     entities (parseParameter (paramSec secs)
       (parseDirection (dirSec secs)
          (parseGlobal (globalSec secs)
             (parseStart (startSec secs) new_IGES))))"

definition declared_D :: "sections \<Rightarrow> int option" where
  "declared_D secs = parseInt (substr (terminateSec secs) 17 7)"

definition directory_state :: "sections \<Rightarrow> IGES" where
  "directory_state secs =
     parseDirection (dirSec secs)
       (parseGlobal (globalSec secs)
          (parseStart (startSec secs) new_IGES))"

section \<open>The parameter parser as the specification words it\<close>

text \<open>
  The specification has the parameter buffer split on the terminator and the field
  delimiter that the global section declared. This second parser does so; it differs from
  \<open>parseParameter\<close> only in reading the two delimiters from the accumulator.
\<close>

definition parseParameter_spec :: "string \<Rightarrow> IGES \<Rightarrow> IGES" where
  "parseParameter_spec data st =
     (let ps = butlast (js_split data (termDelimiter st));
          splitParams = map (\<lambda>item. js_split item (fieldDelimiter st)) ps
      in st\<lparr>entities := parameter_loop splitParams 0 (entities st)\<rparr>)"

section \<open>Synthetic directory records\<close>

text \<open>
  A directory record built from known field values: every numeric field is written
  right-justified in its columns (blank for \<open>NaN\<close>), the status in columns 65-72, the
  section tag in column 73, the name right-justified in columns 137-144; \<open>u1\<close>, \<open>u2\<close>
  and \<open>u3\<close> fill the columns 81-88, 121-136 and 153-160 that the decoder does not read.
\<close>

definition rjust :: "nat \<Rightarrow> string \<Rightarrow> string" where
  "rjust n s = replicate (n - length s) CHR '' '' @ s"

definition num_field :: "nat \<Rightarrow> int option \<Rightarrow> string" where
  "num_field n v = (case v of None \<Rightarrow> replicate n CHR '' '' | Some k \<Rightarrow> rjust n (int_toString (Some k)))"

definition fits :: "nat \<Rightarrow> int option \<Rightarrow> bool" where
  "fits n v = (length (num_field n v) = n)"

definition synthetic_record ::
  "EntityAttribute \<Rightarrow> char \<Rightarrow> string \<Rightarrow> string \<Rightarrow> string \<Rightarrow> string" where
  "synthetic_record a tag u1 u2 u3 =
     num_field 8 (entityType a) @ num_field 8 (entityIndex a) @ num_field 8 (igesVersion a) @
     num_field 8 (lineType a) @ num_field 8 (level a) @ num_field 8 (view a) @
     num_field 8 (transMatrix a) @ num_field 8 (labelDisp a) @ status a @
     [tag] @ num_field 7 (sequenceNumber a) @
     u1 @ num_field 8 (lineWidth a) @ num_field 8 (color a) @ num_field 8 (paramLine a) @
     num_field 8 (formNumber a) @ u2 @ rjust 8 (entityName a) @ num_field 8 (entitySub a) @ u3"

definition valid_attribute :: "EntityAttribute \<Rightarrow> bool" where
  "valid_attribute a =
     (fits 8 (entityType a) \<and> fits 8 (entityIndex a) \<and> fits 8 (igesVersion a) \<and>
      fits 8 (lineType a) \<and> fits 8 (level a) \<and> fits 8 (view a) \<and>
      fits 8 (transMatrix a) \<and> fits 8 (labelDisp a) \<and> length (status a) = 8 \<and>
      fits 7 (sequenceNumber a) \<and> fits 8 (lineWidth a) \<and> fits 8 (color a) \<and>
      fits 8 (paramLine a) \<and> fits 8 (formNumber a) \<and>
      length (entityName a) \<le> 8 \<and> trim (entityName a) = entityName a \<and>
      fits 8 (entitySub a))"

definition synthetic_section ::
  "EntityAttribute list \<Rightarrow> char \<Rightarrow> string \<Rightarrow> string \<Rightarrow> string \<Rightarrow> string" where
  "synthetic_section as tag u1 u2 u3 = concat (map (\<lambda>a. synthetic_record a tag u1 u2 u3) as)"

definition sample_attribute :: EntityAttribute where
  "sample_attribute =
     \<lparr>entityType = Some 116, entityIndex = Some 1, igesVersion = Some 0, lineType = Some 1,
      level = Some 0, view = None, transMatrix = Some (- 3), labelDisp = Some 0,
      status = ''00000001'', sequenceNumber = Some 1, lineWidth = Some 0, color = Some 5,
      paramLine = Some 1, formNumber = Some 0, entityName = ''PT 1'', entitySub = None\<rparr>"

section \<open>Sample files\<close>

text \<open>
  A physical line is its content padded to 72 columns, the section tag with the sequence
  number in columns 73-80, and a line feed.
\<close>

definition pad :: "nat \<Rightarrow> string \<Rightarrow> string" where
  "pad n s = s @ replicate (n - length s) CHR '' ''"

definition file_line :: "string \<Rightarrow> string \<Rightarrow> string" where
  "file_line content tag = pad 72 content @ tag @ [CHR 0x0A]"

definition directory_lines :: "EntityAttribute \<Rightarrow> string" where
  "directory_lines a =
     (let r = synthetic_record a CHR ''D'' ''     116'' (replicate 16 CHR '' '') ''D      2''
      in take 80 r @ [CHR 0x0A] @ drop 80 r @ [CHR 0x0A])"

definition terminate_line :: "string \<Rightarrow> string" where
  "terminate_line d = file_line (''S      1G      1D'' @ rjust 7 d @ ''P      1'') ''T      1''"

definition point_file :: string where
  "point_file =
     file_line ''a point'' ''S      1'' @
     file_line ''1H,,1H;,4Htest;'' ''G      1'' @
     directory_lines sample_attribute @
     file_line (pad 64 ''116,10.,20.,30.;'' @ ''       1'') ''P      1'' @
     terminate_line ''2''"

definition zero_count_file :: string where
  "zero_count_file =
     file_line ''a point'' ''S      1'' @
     file_line ''1H,,1H;,4Htest;'' ''G      1'' @
     directory_lines sample_attribute @
     file_line (pad 64 ''116,10.,20.,30.;'' @ ''       1'') ''P      1'' @
     terminate_line ''0''"

definition mismatch_file :: string where
  "mismatch_file =
     file_line ''a point'' ''S      1'' @
     file_line ''1H,,1H;,4Htest;'' ''G      1'' @
     directory_lines sample_attribute @
     file_line (pad 64 ''116,10.,20.,30.;'' @ ''       1'') ''P      1'' @
     terminate_line ''4''"

definition short_lines_file :: string where
  "short_lines_file = ''short'' @ [CHR 0x0A] @ ''also short'' @ [CHR 0x0D, CHR 0x0A, CHR 0x0A] @ ''x''"

definition interrupted_point_file :: string where
  "interrupted_point_file =
     file_line ''a point'' ''S      1'' @
     ''too short'' @ [CHR 0x0D, CHR 0x0A] @
     file_line ''1H,,1H;,4Htest;'' ''G      1'' @
     directory_lines sample_attribute @
     ''x'' @ [CHR 0x0A] @
     file_line (pad 64 ''116,10.,20.,30.;'' @ ''       1'') ''P      1'' @
     terminate_line ''2''"

definition slash_file :: string where
  "slash_file =
     file_line ''a point'' ''S      1'' @
     file_line ''1H//1H#/4Htest#'' ''G      1'' @
     directory_lines sample_attribute @
     file_line (pad 64 ''116/10./20./30.#'' @ ''       1'') ''P      1'' @
     terminate_line ''2''"

definition no_parameter_file :: string where
  "no_parameter_file =
     file_line ''a point'' ''S      1'' @
     file_line ''1H,,1H;,4Htest;'' ''G      1'' @
     directory_lines sample_attribute @
     terminate_line ''2''"

section \<open>Basic facts about the string and number functions\<close>

lemma indexOf_None: "indexOf s c = None \<longleftrightarrow> c \<notin> set s"
  by (induction s) auto

lemma indexOf_first: "c \<notin> set p \<Longrightarrow> indexOf (p @ c # r) c = Some (length p)"
  by (induction p) auto

lemma digit_val_digit_char: "d < 10 \<Longrightarrow> digit_val (digit_char d) = Some d"
  by (simp add: digit_val_def digit_char_def Let_def)

lemma is_digit_digit_char: "d < 10 \<Longrightarrow> is_digit 10 (digit_char d)"
  by (simp add: is_digit_def digit_val_digit_char)

lemma digits_all_dec: "c \<in> set (digits n) \<Longrightarrow> is_digit 10 c"
proof (induction n arbitrary: c rule: digits.induct)
  case (1 n)
  show ?case
  proof (cases "n < 10")
    case True
    with "1.prems" show ?thesis
      by (simp add: digits.simps [of n] is_digit_digit_char)
  next
    case False
    with "1.prems" have "c \<in> set (digits (n div 10)) \<or> c = digit_char (n mod 10)"
      by (auto simp: digits.simps [of n])
    then show ?thesis
      using "1.IH" [OF False] by (auto simp: is_digit_digit_char)
  qed
qed

lemma digits_not_Nil: "digits n \<noteq> []"
  by (simp add: digits.simps [of n])

lemma digits_value_snoc:
  "digits_value r (ds @ [c]) = digits_value r ds * r + the (digit_val c)"
  by (simp add: digits_value_def)

lemma digits_value_digits: "digits_value 10 (digits n) = n"
proof (induction n rule: digits.induct)
  case (1 n)
  show ?case
  proof (cases "n < 10")
    case True
    then show ?thesis
      by (simp add: digits.simps [of n] digits_value_def digit_val_digit_char)
  next
    case False
    then show ?thesis
      using "1.IH" by (simp add: digits.simps [of n] digits_value_snoc digit_val_digit_char)
  qed
qed

lemma is_digit_not_ws: "is_digit 10 c \<Longrightarrow> \<not> is_ws c"
  by (auto simp: is_digit_def digit_val_def is_ws_def Let_def split: if_splits)

lemma is_digit_not_sign: "is_digit 10 c \<Longrightarrow> c \<noteq> CHR ''-'' \<and> c \<noteq> CHR ''+'' \<and> c \<noteq> CHR ''x'' \<and> c \<noteq> CHR ''X''"
  by (auto simp: is_digit_def digit_val_def Let_def split: if_splits)

lemma digits_no_hex: "take 2 (digits n) \<noteq> ''0x'' \<and> take 2 (digits n) \<noteq> ''0X''"
proof -
  have "CHR ''x'' \<notin> set (digits n)" "CHR ''X'' \<notin> set (digits n)"
    using digits_all_dec is_digit_not_sign by blast+
  then have "CHR ''x'' \<notin> set (take 2 (digits n))" "CHR ''X'' \<notin> set (take 2 (digits n))"
    by (meson in_set_takeD)+
  then show ?thesis by auto
qed

lemma hd_digits: "is_digit 10 (hd (digits n))"
  using digits_all_dec [of "hd (digits n)" n] digits_not_Nil [of n] by simp

lemma parseInt_digits: "parseInt (digits n) = Some (int n)"
proof -
  have a: "dropWhile is_ws (digits n) = digits n"
    using hd_digits [of n] digits_not_Nil [of n] is_digit_not_ws
    by (cases "digits n") auto
  have b: "takeWhile (is_digit 10) (digits n) = digits n"
    using digits_all_dec by (simp add: takeWhile_eq_all_conv)
  show ?thesis
    using hd_digits [of n] is_digit_not_sign [of "hd (digits n)"] digits_no_hex [of n]
      digits_not_Nil [of n]
    by (simp add: parseInt_def a b Let_def digits_value_digits)
qed

lemma parseInt_minus_digits: "parseInt (CHR ''-'' # digits n) = Some (- int n)"
proof -
  have a: "dropWhile is_ws (CHR ''-'' # digits n) = CHR ''-'' # digits n"
    by (simp add: is_ws_def)
  have b: "takeWhile (is_digit 10) (digits n) = digits n"
    using digits_all_dec by (simp add: takeWhile_eq_all_conv)
  show ?thesis
    using digits_no_hex [of n] digits_not_Nil [of n]
    unfolding parseInt_def a by (simp add: b Let_def digits_value_digits)
qed

lemma parseInt_int_toString: "parseInt (int_toString (Some k)) = Some k"
  by (simp add: int_toString_def parseInt_digits parseInt_minus_digits)

lemma parseInt_leading_spaces: "parseInt (replicate k CHR '' '' @ s) = parseInt s"
proof -
  have "dropWhile is_ws (replicate k CHR '' '' @ s) = dropWhile is_ws s"
    by (induction k) (simp_all add: is_ws_def)
  then show ?thesis by (simp add: parseInt_def)
qed

lemma parseInt_NaN_string: "parseInt ''NaN'' = None"
  by (simp add: parseInt_def is_ws_def is_digit_def digit_val_def)

lemma int_toString_eq_iff:
  assumes "parseInt s = Some k" and "int_toString (Some k) = s"
  shows "int_toString f = s \<longleftrightarrow> f = Some k"
proof (cases f)
  case None
  with assms(1) show ?thesis
    using parseInt_NaN_string by (auto simp: int_toString_def)
next
  case (Some j)
  show ?thesis
  proof
    assume "int_toString f = s"
    then have "parseInt (int_toString (Some j)) = Some k"
      using assms(1) Some by simp
    then show "f = Some k"
      using Some by (simp add: parseInt_int_toString)
  next
    assume "f = Some k"
    then show "int_toString f = s"
      using assms(2) by simp
  qed
qed

lemma int_toString_12: "int_toString f = ''12'' \<longleftrightarrow> f = Some 12"
  by (rule int_toString_eq_iff; code_simp)

lemma int_toString_0: "int_toString f = ''0'' \<longleftrightarrow> f = Some 0"
  by (rule int_toString_eq_iff; code_simp)

lemma int_toString_2: "int_toString f = ''2'' \<longleftrightarrow> f = Some 2"
  by (rule int_toString_eq_iff; code_simp)

lemma int_toString_1: "int_toString f = ''1'' \<longleftrightarrow> f = Some 1"
  by (rule int_toString_eq_iff; code_simp)

lemma int_toString_40: "int_toString f = ''40'' \<longleftrightarrow> f = Some 40"
  by (rule int_toString_eq_iff; code_simp)

lemma int_toString_63: "int_toString f = ''63'' \<longleftrightarrow> f = Some 63"
  by (rule int_toString_eq_iff; code_simp)

lemma parseInt_9: "parseInt ''9'' = Some 9"
  by (simp add: parseInt_def is_ws_def is_digit_def digit_val_def digits_value_def)

lemma nat_lt_ceiling: "(of_nat i < (q::rat)) = (i < nat \<lceil>q\<rceil>)"
  by (simp add: zless_nat_eq_int_zless less_ceiling_iff)

lemma push_loop_Fin:
  "push_loop (Fin q) body i points = Some (points @ map body [i..<nat \<lceil>q\<rceil>])"
proof (induction "nat \<lceil>q\<rceil> - i" arbitrary: i points)
  case 0
  then have "\<not> of_nat i < q"
    by (simp add: nat_lt_ceiling)
  then show ?case
    using 0 by (subst push_loop.simps) (simp add: js_nat_def)
next
  case (Suc d)
  then have lt: "i < nat \<lceil>q\<rceil>" by simp
  then have "of_nat i < q"
    by (simp add: nat_lt_ceiling)
  moreover have "d = nat \<lceil>q\<rceil> - Suc i" using Suc.hyps(2) by simp
  ultimately show ?case
    using Suc.hyps(1) [of "Suc i" "points @ [body i]"] lt
    by (subst push_loop.simps) (simp add: js_nat_def upt_conv_Cons)
qed

lemma push_loop_NaN: "push_loop NaN body i points = Some points"
  by (subst push_loop.simps) (simp add: js_nat_def)

lemma push_loop_NInf: "push_loop NInf body i points = Some points"
  by (subst push_loop.simps) (simp add: js_nat_def)

lemma push_loop_PInf_aux:
  assumes "push_loop bound body i points = Some r"
  shows "bound \<noteq> PInf"
  by (rule push_loop.raw_induct [where P = "\<lambda>b _ _ _ _. b \<noteq> PInf", OF _ assms])
     (auto simp: js_nat_def split: if_splits)

lemma push_loop_PInf: "push_loop PInf body i points = None"
  using push_loop_PInf_aux [of PInf body i points] by (cases "push_loop PInf body i points") auto


lemma num_at_js_int:
  "num_at_js ps (Fin (of_int j)) = (if 0 \<le> j then num_at ps (nat j) else NaN)"
  by (simp add: num_at_js_def)

lemma spline_index:
  "js_add (js_add (js_add (js_mul (js_nat i) (js_nat 3)) (js_nat c))
      (js_add (js_sub (js_add (js_nat 1) (Fin (of_int K))) (Fin (of_int M)))
         (js_mul (js_nat 2) (Fin (of_int M))))) (Fin (of_int K))
   = Fin (of_int (3 * int i + int c + ((1 + K - M) + 2 * M) + K))"
  by (simp add: js_nat_def js_sub_def)

section \<open>Field decoder: Hollerith strings and floats\<close>

text \<open>
  C7. A token without an \<open>H\<close> decodes to no value. A token \<open>p H rest\<close> whose part \<open>p\<close>
  before the first \<open>H\<close> parses to the count \<open>n\<close> decodes to the first \<open>n\<close> characters of
  \<open>rest\<close>, or to all of \<open>rest\<close> when it has fewer. \<open>4HABCD\<close> decodes to \<open>ABCD\<close>.
\<close>

theorem decodeHollerith:
  "(CHR ''H'' \<notin> set tok \<longrightarrow> parseIgesString tok = None) \<and>
   (CHR ''H'' \<notin> set p \<and> parseInt p = Some n \<longrightarrow>
      parseIgesString (p @ CHR ''H'' # rest) = Some (take (nat n) rest)) \<and>
   parseIgesString ''4HABCD'' = Some ''ABCD''"
proof (intro conjI impI)
  assume "CHR ''H'' \<notin> set tok"
  then show "parseIgesString tok = None"
    using indexOf_None [of tok "CHR ''H''"] by (simp add: parseIgesString_def)
next
  assume "CHR ''H'' \<notin> set p \<and> parseInt p = Some n"
  then show "parseIgesString (p @ CHR ''H'' # rest) = Some (take (nat n) rest)"
    by (simp add: parseIgesString_def indexOf_first substr_def substr_len_def)
next
  show "parseIgesString ''4HABCD'' = Some ''ABCD''"
    by code_simp
qed

theorem decodeHollerith_witness:
  "CHR ''H'' \<notin> set ''ABC'' \<and> parseIgesString ''ABC'' = None \<and>
   CHR ''H'' \<notin> set ''9'' \<and> parseInt ''9'' = Some 9 \<and>
   parseIgesString ''9HAB'' = Some ''AB''"
  using decodeHollerith [of "''ABC''" "''9''" 9 "''AB''"] parseInt_9
  by simp

text \<open>
  C8. Decoding a float rewrites every \<open>D\<close>, and no \<open>d\<close>, to \<open>e\<close> and then parses: \<open>1.5D+02\<close>
  decodes to 150, a token without \<open>D\<close> is left as it is by the rewrite, so \<open>1.5e+02\<close>
  decodes to 150 as well, and rewriting twice is rewriting once.
\<close>

theorem decodeFloat_exponent:
  "parseIgesFloat ''1.5D+02'' = Fin 150 \<and>
   parseIgesFloat ''1.5e+02'' = Fin 150 \<and>
   replace_D ''1.5D+02'' = ''1.5e+02'' \<and>
   replace_D ''1.5d+02'' = ''1.5d+02'' \<and>
   parseIgesFloat tok = parseFloat (replace_D tok) \<and>
   (CHR ''D'' \<notin> set tok \<longrightarrow> replace_D tok = tok) \<and>
   replace_D (replace_D tok) = replace_D tok"
proof (intro conjI impI)
  show "parseIgesFloat ''1.5D+02'' = Fin 150"
    by (simp add: parseIgesFloat_def replace_D_def parseFloat_def is_ws_def is_dec_def
        is_digit_def digit_val_def digits_value_def exponent_part_def scale10_def)
  show "parseIgesFloat ''1.5e+02'' = Fin 150"
    by (simp add: parseIgesFloat_def replace_D_def parseFloat_def is_ws_def is_dec_def
        is_digit_def digit_val_def digits_value_def exponent_part_def scale10_def)
  show "replace_D ''1.5D+02'' = ''1.5e+02''"
    by (simp add: replace_D_def)
  show "replace_D ''1.5d+02'' = ''1.5d+02''"
    by (simp add: replace_D_def)
  show "parseIgesFloat tok = parseFloat (replace_D tok)"
    by (simp add: parseIgesFloat_def)
  show "replace_D tok = tok" if "CHR ''D'' \<notin> set tok"
    using that by (induction tok) (auto simp: replace_D_def)
  show "replace_D (replace_D tok) = replace_D tok"
    by (induction tok) (simp_all add: replace_D_def)
qed

theorem decodeFloat_exponent_witness:
  "CHR ''D'' \<notin> set ''2.5E1'' \<and> replace_D ''2.5E1'' = ''2.5E1''"
  using decodeFloat_exponent [of "''2.5E1''"]
  by simp

section \<open>Geometry synthesizer: points, splines and unsupported forms\<close>

text \<open>
  C9. An entity of type 116 whose parameters start with \<open>x\<close>, \<open>y\<close>, \<open>z\<close> adds exactly one
  child to the group, a point cloud with the single position \<open>(x, y, z)\<close>, and writes
  nothing to the console.
\<close>

theorem point_entity:
  "etype e = ''116'' \<and> params e = x # y # z # rest \<longrightarrow>
     draw_entity e w = Some (add_child (PointCloud [(x, y, z)]) w) \<and>
     children (geometry (add_child (PointCloud [(x, y, z)]) w))
       = children (geometry w) @ [PointCloud [(x, y, z)]]"
  by (simp add: draw_entity_def drawPoint_def num_at_def add_child_def)

theorem point_entity_witness:
  "etype \<lparr>etype = ''116'', attr = default_attribute, params = [Fin 10, Fin 20, Fin 30]\<rparr> = ''116'' \<and>
   draw_entity \<lparr>etype = ''116'', attr = default_attribute, params = [Fin 10, Fin 20, Fin 30]\<rparr>
     \<lparr>geometry = \<lparr>children = []\<rparr>, console = []\<rparr>
   = Some \<lparr>geometry = \<lparr>children = [PointCloud [(Fin 10, Fin 20, Fin 30)]]\<rparr>, console = []\<rparr>"
  using point_entity
    [of "\<lparr>etype = ''116'', attr = default_attribute, params = [Fin 10, Fin 20, Fin 30]\<rparr>"
        "Fin 10" "Fin 20" "Fin 30" "[]" "\<lparr>geometry = \<lparr>children = []\<rparr>, console = []\<rparr>"]
  by (simp add: add_child_def)

text \<open>
  C6. For an entity of type 126 with form 0 or 1 whose first two parameters are the integers
  \<open>K\<close> and \<open>M\<close>, with \<open>N = 1 + K - M\<close> and \<open>A = N + 2M\<close>, one polyline is added to the
  group; it has \<open>K + 1\<close> points (none when \<open>K + 1\<close> is negative), and its \<open>i\<close>-th point
  reads the parameters at \<open>3i + 8 + A + K\<close>, \<open>3i + 9 + A + K\<close> and \<open>3i + 10 + A + K\<close>
  (a subscript outside the list reads \<open>NaN\<close>).
\<close>

theorem rbspline_polyline:
  assumes "etype e = ''126''"
    and "formNumber (attr e) = Some 0 \<or> formNumber (attr e) = Some 1"
    and "num_at (params e) 0 = Fin (of_int K)"
    and "num_at (params e) 1 = Fin (of_int M)"
    and "N = 1 + K - M"
    and "A = N + 2 * M"
  shows "draw_entity e w =
     Some (add_child
       (Polyline (map (\<lambda>i. (num_at_js (params e) (Fin (of_int (3 * int i + 8 + A + K))),
                            num_at_js (params e) (Fin (of_int (3 * int i + 9 + A + K))),
                            num_at_js (params e) (Fin (of_int (3 * int i + 10 + A + K)))))
                  [0..<nat (K + 1)])) w)"
proof -
  have form: "int_toString (formNumber (attr e)) = ''0'' \<or> int_toString (formNumber (attr e)) = ''1''"
    using assms(2) by (simp add: int_toString_0 int_toString_1)
  have bound: "js_add (Fin (of_int K)) (js_nat 1) = Fin (of_int (K + 1))"
    by (simp add: js_nat_def)
  have "drawRBSplineCurve e w =
     Some (add_child
       (Polyline (map (\<lambda>i. (num_at_js (params e) (Fin (of_int (3 * int i + 8 + A + K))),
                            num_at_js (params e) (Fin (of_int (3 * int i + 9 + A + K))),
                            num_at_js (params e) (Fin (of_int (3 * int i + 10 + A + K)))))
                  [0..<nat (K + 1)])) w)"
    unfolding drawRBSplineCurve_def Let_def assms(3,4) bound push_loop_Fin spline_index
    using form assms(5,6) by simp
  then show ?thesis
    using assms(1) by (simp add: draw_entity_def)
qed

theorem rbspline_polyline_witness:
  "etype \<lparr>etype = ''126'', attr = default_attribute\<lparr>formNumber := Some 0\<rparr>,
           params = [Fin 1, Fin 1, Fin 0, Fin 0, Fin 1, Fin 0, Fin 0, Fin 0, Fin 1, Fin 1,
                     Fin 1, Fin 1, Fin 10, Fin 20, Fin 30, Fin 40, Fin 50, Fin 60]\<rparr> = ''126'' \<and>
   draw_entity
     \<lparr>etype = ''126'', attr = default_attribute\<lparr>formNumber := Some 0\<rparr>,
      params = [Fin 1, Fin 1, Fin 0, Fin 0, Fin 1, Fin 0, Fin 0, Fin 0, Fin 1, Fin 1,
                Fin 1, Fin 1, Fin 10, Fin 20, Fin 30, Fin 40, Fin 50, Fin 60]\<rparr>
     \<lparr>geometry = \<lparr>children = []\<rparr>, console = []\<rparr>
   = Some \<lparr>geometry = \<lparr>children = [Polyline [(Fin 10, Fin 20, Fin 30), (Fin 40, Fin 50, Fin 60)]]\<rparr>,
           console = []\<rparr>"
  using rbspline_polyline
    [of "\<lparr>etype = ''126'', attr = default_attribute\<lparr>formNumber := Some 0\<rparr>,
          params = [Fin 1, Fin 1, Fin 0, Fin 0, Fin 1, Fin 0, Fin 0, Fin 0, Fin 1, Fin 1,
                    Fin 1, Fin 1, Fin 10, Fin 20, Fin 30, Fin 40, Fin 50, Fin 60]\<rparr>"
        1 1 1 3 "\<lparr>geometry = \<lparr>children = []\<rparr>, console = []\<rparr>"]
  by (simp add: default_attribute_def num_at_def num_at_js_def add_child_def upt_rec)

text \<open>
  C3, as the code has it. An entity of type 106 whose form is none of 12, 40, 63, and
  an entity of type 110 whose form is a number other than 0 and 2, writes one diagnostic to
  the console and still adds one child to the group: a polyline with no points.
\<close>

theorem unsupported_form_empty_polyline:
  "(etype e = ''106'' \<and> formNumber (attr e) \<notin> {Some 12, Some 40, Some 63} \<longrightarrow>
      draw_entity e w =
        Some \<lparr>geometry = \<lparr>children = children (geometry w) @ [Polyline []]\<rparr>,
              console = console w @ [UnsupportedFormNumber (formNumber (attr e))]\<rparr>) \<and>
   (etype e = ''110'' \<and> formNumber (attr e) = Some n \<and> n \<noteq> 0 \<and> n \<noteq> 2 \<longrightarrow>
      draw_entity e w =
        Some \<lparr>geometry = \<lparr>children = children (geometry w) @ [Polyline []]\<rparr>,
              console = console w @ [LineUnsupportedFormNumber (Some n)]\<rparr>)"
  by (simp add: draw_entity_def drawPath_def drawLine_def int_toString_12 int_toString_40
      int_toString_63 int_toString_0 int_toString_2 add_child_def log_diag_def Let_def)

theorem unsupported_form_empty_polyline_witness:
  "draw_entity \<lparr>etype = ''106'', attr = default_attribute\<lparr>formNumber := Some 11\<rparr>, params = []\<rparr>
     \<lparr>geometry = \<lparr>children = []\<rparr>, console = []\<rparr>
   = Some \<lparr>geometry = \<lparr>children = [Polyline []]\<rparr>, console = [UnsupportedFormNumber (Some 11)]\<rparr> \<and>
   draw_entity \<lparr>etype = ''110'', attr = default_attribute\<lparr>formNumber := Some 1\<rparr>, params = []\<rparr>
     \<lparr>geometry = \<lparr>children = []\<rparr>, console = []\<rparr>
   = Some \<lparr>geometry = \<lparr>children = [Polyline []]\<rparr>, console = [LineUnsupportedFormNumber (Some 1)]\<rparr>"
  using unsupported_form_empty_polyline
    [of "\<lparr>etype = ''106'', attr = default_attribute\<lparr>formNumber := Some 11\<rparr>, params = []\<rparr>"
        "\<lparr>geometry = \<lparr>children = []\<rparr>, console = []\<rparr>"]
    unsupported_form_empty_polyline
    [of "\<lparr>etype = ''110'', attr = default_attribute\<lparr>formNumber := Some 1\<rparr>, params = []\<rparr>"
        "\<lparr>geometry = \<lparr>children = []\<rparr>, console = []\<rparr>" 1]
  by (simp add: default_attribute_def)

text \<open>
  C3 as stated fails: a type 106 entity of form 0 contributes a child to the group.
\<close>

theorem unsupported_form_adds_child:
  "draw_entity \<lparr>etype = ''106'', attr = default_attribute\<lparr>formNumber := Some 0\<rparr>, params = []\<rparr>
     \<lparr>geometry = \<lparr>children = []\<rparr>, console = []\<rparr>
   = Some \<lparr>geometry = \<lparr>children = [Polyline []]\<rparr>, console = [UnsupportedFormNumber (Some 0)]\<rparr> \<and>
   children \<lparr>children = [Polyline []]\<rparr> \<noteq> children \<lparr>children = []\<rparr>"
  by (simp add: draw_entity_def drawPath_def int_toString_12 int_toString_40
      int_toString_63 add_child_def log_diag_def Let_def default_attribute_def)

section \<open>Directory section\<close>

lemma map_upt_shift: "map f [0..<Suc n] = f 0 # map (\<lambda>k. f (Suc k)) [0..<n]"
  by (induction n) simp_all

lemma window_count_step:
  assumes "i < (L::nat)"
  shows "(L - i + 159) div 160 = Suc ((L - (i + 160) + 159) div 160)"
proof (cases "L - i < 160")
  case True
  then have "L - (i + 160) = 0" by simp
  moreover have "(L - i + 159) div 160 = 1"
  proof -
    have "160 \<le> L - i + 159" "L - i + 159 < 2 * 160" using assms True by simp_all
    then show ?thesis
      by (intro div_nat_eqI) simp_all
  qed
  ultimately show ?thesis by simp
next
  case False
  then obtain e where e: "L - i = e + 160"
    by (metis add.commute le_add_diff_inverse not_less)
  then have "L - (i + 160) = e" by simp
  then show ?thesis
    using e by simp
qed

lemma direction_loop_windows:
  "direction_loop data i ents =
     ents @ map (\<lambda>k. directory_entity (substr data (i + 160 * k) 160))
              [0..<(length data - i + 159) div 160]"
proof (induction data i ents rule: direction_loop.induct)
  case (1 data i ents)
  show ?case
  proof (cases "i < length data")
    case False
    then show ?thesis
      by (subst direction_loop.simps) simp
  next
    case True
    have shift: "\<And>k. i + 160 + 160 * k = i + 160 * Suc k" by simp
    have "direction_loop data i ents
        = direction_loop data (i + 160) (ents @ [directory_entity (substr data i 160)])"
      using True by (subst direction_loop.simps) simp
    also have "\<dots> = (ents @ [directory_entity (substr data i 160)]) @
        map (\<lambda>k. directory_entity (substr data (i + 160 * Suc k) 160))
          [0..<(length data - (i + 160) + 159) div 160]"
      using "1.IH" [OF True] unfolding shift .
    also have "\<dots> = ents @ map (\<lambda>k. directory_entity (substr data (i + 160 * k) 160))
          [0..<Suc ((length data - (i + 160) + 159) div 160)]"
      unfolding map_upt_shift by simp
    finally show ?thesis
      unfolding window_count_step [OF True] .
  qed
qed

lemma parseInt_blank: "parseInt (replicate n CHR '' '') = None"
  using parseInt_leading_spaces [of n "[]"] by (simp add: parseInt_def)

lemma parseInt_num_field: "parseInt (num_field n v) = v"
  by (cases v) (simp_all add: num_field_def rjust_def parseInt_blank parseInt_leading_spaces parseInt_int_toString)

lemma trim_leading_spaces: "trim (replicate k CHR '' '' @ s) = trim s"
proof -
  have "dropWhile is_ws (replicate k CHR '' '' @ s) = dropWhile is_ws s"
    by (induction k) (simp_all add: is_ws_def)
  then show ?thesis by (simp add: trim_def)
qed

lemma substr_here: "length a = n \<Longrightarrow> substr (a @ b) 0 n = a"
  by (simp add: substr_def)

lemma substr_skip: "length a \<le> start \<Longrightarrow> substr (a @ b) start n = substr b (start - length a) n"
  by (simp add: substr_def)


lemma substr_Cons: "0 < start \<Longrightarrow> substr (c # b) start n = substr b (start - 1) n"
  by (cases start) (simp_all add: substr_def)

lemma trim_rjust: "trim (rjust n s) = trim s"
  by (simp add: rjust_def trim_leading_spaces)

lemma length_num_field: "fits n v \<Longrightarrow> length (num_field n v) = n"
  by (simp add: fits_def)

lemma length_rjust: "length s \<le> n \<Longrightarrow> length (rjust n s) = n"
  by (simp add: rjust_def)

lemma synthetic_record_decodes:
  assumes f: "fits 8 (entityType a)" "fits 8 (entityIndex a)" "fits 8 (igesVersion a)"
      "fits 8 (lineType a)" "fits 8 (level a)" "fits 8 (view a)" "fits 8 (transMatrix a)"
      "fits 8 (labelDisp a)" "fits 7 (sequenceNumber a)" "fits 8 (lineWidth a)"
      "fits 8 (color a)" "fits 8 (paramLine a)" "fits 8 (formNumber a)" "fits 8 (entitySub a)"
    and s: "length (status a) = 8"
    and n: "length (entityName a) \<le> 8" "trim (entityName a) = entityName a"
    and u: "length u1 = 8" "length u2 = 16"
  shows "attr (directory_entity (synthetic_record a tag u1 u2 u3)) = a"
proof -
  note len = f [THEN length_num_field] s u length_rjust [OF n(1)]
  have "attr (directory_entity (synthetic_record a tag u1 u2 u3)) =
      \<lparr>entityType = entityType a, entityIndex = entityIndex a, igesVersion = igesVersion a,
       lineType = lineType a, level = level a, view = view a, transMatrix = transMatrix a,
       labelDisp = labelDisp a, status = status a, sequenceNumber = sequenceNumber a,
       lineWidth = lineWidth a, color = color a, paramLine = paramLine a,
       formNumber = formNumber a, entityName = entityName a, entitySub = entitySub a\<rparr>"
    unfolding directory_entity_def synthetic_record_def new_Entity_def default_attribute_def Let_def
    by (simp add: substr_skip substr_here substr_Cons len parseInt_num_field trim_rjust n(2))
  then show ?thesis by simp
qed


lemma length_synthetic_record:
  assumes "valid_attribute a" "length u1 = 8" "length u2 = 16" "length u3 = 8"
  shows "length (synthetic_record a tag u1 u2 u3) = 160"
  using assms
  by (simp add: valid_attribute_def synthetic_record_def length_num_field length_rjust)

lemma length_concat_uniform:
  "\<forall>r\<in>set rs. length r = w \<Longrightarrow> length (concat rs) = w * length rs"
  by (induction rs) simp_all

lemma concat_window:
  "\<forall>r\<in>set rs. length r = w \<Longrightarrow> k < length rs \<Longrightarrow> substr (concat rs) (w * k) w = rs ! k"
proof (induction rs arbitrary: k)
  case Nil
  then show ?case by simp
next
  case (Cons r rs)
  show ?case
  proof (cases k)
    case 0
    then show ?thesis using Cons.prems by (simp add: substr_def)
  next
    case (Suc j)
    then show ?thesis
      using Cons.prems Cons.IH [of j] by (simp add: substr_def)
  qed
qed

lemma uniform_window_count: "(160 * n + 159) div 160 = (n::nat)"
  by (intro div_nat_eqI) simp_all

text \<open>
  C5. The directory parser appends one entity per 160-character window of the buffer, in
  window order (the last window may be shorter), each decoded from its window alone. A
  buffer made of synthetic records, whose field values sit at the documented columns,
  decodes to exactly the attributes the records were built from, in order.
\<close>

theorem directory_decoding:
  "entities (parseDirection data st) =
     entities st @ map (\<lambda>k. directory_entity (substr data (160 * k) 160))
                     [0..<(length data + 159) div 160] \<and>
   ((\<forall>a\<in>set as. valid_attribute a) \<and> length u1 = 8 \<and> length u2 = 16 \<and> length u3 = 8 \<longrightarrow>
      map attr (entities (parseDirection (synthetic_section as tag u1 u2 u3) new_IGES)) = as)"
proof (intro conjI impI)
  show w: "entities (parseDirection data st) =
     entities st @ map (\<lambda>k. directory_entity (substr data (160 * k) 160))
                     [0..<(length data + 159) div 160]" for data st
    using direction_loop_windows [of data 0 "entities st"] by (simp add: parseDirection_def)
  assume h: "(\<forall>a\<in>set as. valid_attribute a) \<and> length u1 = 8 \<and> length u2 = 16 \<and> length u3 = 8"
  let ?rs = "map (\<lambda>a. synthetic_record a tag u1 u2 u3) as"
  have len: "\<forall>r\<in>set ?rs. length r = 160"
    using h by (auto simp: length_synthetic_record)
  have n: "(length (concat ?rs) + 159) div 160 = length as"
    using length_concat_uniform [OF len] by (simp add: uniform_window_count)
  have "map attr (entities (parseDirection (concat ?rs) new_IGES))
      = map (\<lambda>k. attr (directory_entity (substr (concat ?rs) (160 * k) 160))) [0..<length as]"
    unfolding w n by (simp add: new_IGES_def comp_def)
  also have "\<dots> = map (\<lambda>k. as ! k) [0..<length as]"
  proof (rule map_cong [OF refl])
    fix k assume "k \<in> set [0..<length as]"
    then have k: "k < length as" by simp
    then have "substr (concat ?rs) (160 * k) 160 = synthetic_record (as ! k) tag u1 u2 u3"
      using concat_window [OF len, of k] by simp
    moreover have "valid_attribute (as ! k)" using h k by simp
    ultimately show "attr (directory_entity (substr (concat ?rs) (160 * k) 160)) = as ! k"
      using h by (simp add: synthetic_record_decodes valid_attribute_def)
  qed
  also have "\<dots> = as" by (simp add: map_nth)
  finally show "map attr (entities (parseDirection (synthetic_section as tag u1 u2 u3) new_IGES)) = as"
    by (simp add: synthetic_section_def)
qed

lemma valid_sample_attribute: "valid_attribute sample_attribute"
  by code_simp

theorem directory_decoding_witness:
  "valid_attribute sample_attribute \<and>
   synthetic_section [sample_attribute] CHR ''D'' ''     116'' (replicate 16 CHR '' '') ''D      2''
     = ''     116       1       0       1       0              -3       000000001D      1''
     @ ''     116       0       5       1       0                    PT 1        D      2'' \<and>
   map attr (entities (parseDirection
      (synthetic_section [sample_attribute] CHR ''D'' ''     116'' (replicate 16 CHR '' '') ''D      2'')
      new_IGES)) = [sample_attribute]"
proof -
  have v: "\<forall>a\<in>set [sample_attribute]. valid_attribute a"
    using valid_sample_attribute by simp
  have s: "synthetic_section [sample_attribute] CHR ''D'' ''     116'' (replicate 16 CHR '' '') ''D      2''
     = ''     116       1       0       1       0              -3       000000001D      1''
     @ ''     116       0       5       1       0                    PT 1        D      2''"
    by code_simp
  have d: "map attr (entities (parseDirection
      (synthetic_section [sample_attribute] CHR ''D'' ''     116'' (replicate 16 CHR '' '') ''D      2'')
      new_IGES)) = [sample_attribute]"
    using directory_decoding [of "[]" new_IGES "[sample_attribute]" "''     116''"
        "replicate 16 CHR '' ''" "''D      2''" "CHR ''D''"] v
    by simp
  show ?thesis
    by (rule conjI [OF valid_sample_attribute conjI [OF s d]])
qed

section \<open>The entity count check\<close>

lemma load_sections_cases:
  "load_sections secs =
     (if count_mismatch (length (assembled_entities secs)) (declared_D secs)
      then Inl InconsistentEntityCount
      else Inr ((parseParameter (paramSec secs)
             (parseDirection (dirSec secs)
                (parseGlobal (globalSec secs)
                   (parseStart (startSec secs) new_IGES))))
           \<lparr>lineNum_S := parseInt (substr (terminateSec secs) 1 7),
            lineNum_G := parseInt (substr (terminateSec secs) 9 7),
            lineNum_D := parseInt (substr (terminateSec secs) 17 7),
            lineNum_P := parseInt (substr (terminateSec secs) 25 7)\<rparr>))"
  by (simp add: load_sections_def parseTerminate_def assembled_entities_def declared_D_def Let_def)

lemma count_mismatch_int:
  "count_mismatch n d \<longleftrightarrow> (\<exists>k. d = Some k \<and> k \<noteq> 0 \<and> 2 * int n \<noteq> k)"
proof (cases d)
  case None
  then show ?thesis by (simp add: count_mismatch_def)
next
  case (Some k)
  have "(rat_of_nat n = rat_of_int k / 2) = (rat_of_int (2 * int n) = rat_of_int k)"
    by (simp add: field_simps)
  also have "\<dots> = (2 * int n = k)"
    by (simp only: of_int_eq_iff)
  finally show ?thesis
    using Some by (simp add: count_mismatch_def)
qed

lemma load_sections_entities:
  "load_sections secs = Inr iges \<Longrightarrow> entities iges = assembled_entities secs"
  by (auto simp: load_sections_cases assembled_entities_def split: if_splits)

lemma synthesize_throws:
  "(\<exists>c. synthesize secs warns = Some (c, Inl e)) \<longleftrightarrow> load_sections secs = Inl e"
  by (auto simp: synthesize_def split: sum.splits)

lemma parseIges_sections:
  "parseIges data = synthesize (sections_of data) (snd (scan_lines 0 (physical_lines data) (no_sections, [])))"
  by (simp add: parseIges_def sections_of_def Let_def)

text \<open>
  C1, as the code has it. The parse throws the inconsistent-entity-count error exactly
  when the declared directory line count parses to a number other than zero and the
  number of assembled entities differs from that count divided by 2. When it throws there
  is no group. When the declared count is zero or does not parse, the parse throws nothing,
  whatever the number of entities.
\<close>

theorem inconsistent_count_error:
  "((\<exists>c. parseIges data = Some (c, Inl InconsistentEntityCount)) \<longleftrightarrow>
      (\<exists>d. declared_D (sections_of data) = Some d \<and> d \<noteq> 0 \<and>
           rat_of_nat (length (assembled_entities (sections_of data))) \<noteq> rat_of_int d / 2)) \<and>
   ((\<exists>c. parseIges data = Some (c, Inl InconsistentEntityCount)) \<longrightarrow>
      (\<forall>c g. parseIges data \<noteq> Some (c, Inr g))) \<and>
   (declared_D (sections_of data) = None \<or> declared_D (sections_of data) = Some 0 \<longrightarrow>
      (\<forall>c e. parseIges data \<noteq> Some (c, Inl e)))"
proof (intro conjI)
  have throws: "(\<exists>c. parseIges data = Some (c, Inl e)) \<longleftrightarrow>
      count_mismatch (length (assembled_entities (sections_of data))) (declared_D (sections_of data))"
    for e
    unfolding parseIges_sections synthesize_throws
    by (cases e) (simp add: load_sections_cases)
  show "(\<exists>c. parseIges data = Some (c, Inl InconsistentEntityCount)) \<longleftrightarrow>
      (\<exists>d. declared_D (sections_of data) = Some d \<and> d \<noteq> 0 \<and>
           rat_of_nat (length (assembled_entities (sections_of data))) \<noteq> rat_of_int d / 2)"
    unfolding throws by (simp add: count_mismatch_def split: option.splits)
  show "(\<exists>c. parseIges data = Some (c, Inl InconsistentEntityCount)) \<longrightarrow>
      (\<forall>c g. parseIges data \<noteq> Some (c, Inr g))"
    by auto
  show "declared_D (sections_of data) = None \<or> declared_D (sections_of data) = Some 0 \<longrightarrow>
      (\<forall>c e. parseIges data \<noteq> Some (c, Inl e))"
  proof (intro impI allI notI)
    fix c e
    assume d: "declared_D (sections_of data) = None \<or> declared_D (sections_of data) = Some 0"
      and p: "parseIges data = Some (c, Inl e)"
    from p have "\<exists>c. parseIges data = Some (c, Inl e)" by blast
    then have "count_mismatch (length (assembled_entities (sections_of data)))
        (declared_D (sections_of data))"
      by (simp only: throws)
    with d show False by (auto simp: count_mismatch_def)
  qed
qed

lemma mismatch_file_counts:
  "declared_D (sections_of mismatch_file) = Some 4 \<and>
   length (assembled_entities (sections_of mismatch_file)) = 1"
  by code_simp

lemma zero_count_file_declared: "declared_D (sections_of zero_count_file) = Some 0"
  by code_simp

theorem inconsistent_count_error_witness:
  "declared_D (sections_of mismatch_file) = Some 4 \<and>
   length (assembled_entities (sections_of mismatch_file)) = 1 \<and>
   map_option snd (parseIges mismatch_file) = Some (Inl InconsistentEntityCount) \<and>
   declared_D (sections_of zero_count_file) = Some 0 \<and>
   map_option snd (parseIges zero_count_file) \<noteq> Some (Inl InconsistentEntityCount)"
proof -
  have "\<exists>c. parseIges mismatch_file = Some (c, Inl InconsistentEntityCount)"
    using inconsistent_count_error [of mismatch_file] mismatch_file_counts by simp
  then have a: "map_option snd (parseIges mismatch_file) = Some (Inl InconsistentEntityCount)"
    by auto
  have "\<forall>c e. parseIges zero_count_file \<noteq> Some (c, Inl e)"
    using inconsistent_count_error [of zero_count_file] zero_count_file_declared by simp
  then have b: "map_option snd (parseIges zero_count_file) \<noteq> Some (Inl InconsistentEntityCount)"
    by auto
  show ?thesis
    using a b mismatch_file_counts zero_count_file_declared by simp
qed

text \<open>
  C1 as stated fails for a declared count of zero: one entity is assembled, the terminate
  section declares 0 directory lines, 1 differs from 0 / 2, and the parse returns a group.
\<close>

theorem zero_count_no_error:
  "length (assembled_entities (sections_of zero_count_file)) = 1 \<and>
   declared_D (sections_of zero_count_file) = Some 0 \<and>
   rat_of_nat 1 \<noteq> rat_of_int 0 / 2 \<and>
   parseIges zero_count_file
     = Some ([], Inr \<lparr>children = [PointCloud [(Fin 10, Fin 20, Fin 30)]]\<rparr>)"
  by code_simp

section \<open>Short lines\<close>

lemma scan_lines_short:
  "\<forall>l\<in>set ls. length l < 73 \<Longrightarrow>
   scan_lines i ls (secs, warns) =
     (secs, warns @ map (\<lambda>(j, l). LineTooShort j (length l) (take 50 l)) (enumerate i ls))"
  by (induction ls arbitrary: i warns) (simp_all add: scan_line_def)

lemma fst_scan_line:
  "fst st = fst st' \<Longrightarrow> fst (scan_line i l st) = fst (scan_line j l st')"
  by (simp add: scan_line_def Let_def)

lemma fst_scan_line_short: "length l < 73 \<Longrightarrow> fst (scan_line i l st) = fst st"
  by (simp add: scan_line_def Let_def)

lemma fst_scan_lines_long:
  "fst st = fst st' \<Longrightarrow>
   fst (scan_lines i ls st) = fst (scan_lines j (filter (\<lambda>l. 73 \<le> length l) ls) st')"
proof (induction ls arbitrary: i j st st')
  case Nil
  then show ?case by simp
next
  case (Cons l ls)
  show ?case
  proof (cases "73 \<le> length l")
    case True
    then show ?thesis
      using Cons.IH [OF fst_scan_line [OF Cons.prems, of i l j], of "Suc i" "Suc j"] by simp
  next
    case False
    then have "fst (scan_line i l st) = fst st'"
      using Cons.prems by (simp add: fst_scan_line_short)
    then show ?thesis
      using False Cons.IH [of "scan_line i l st" st' "Suc i" j] by simp
  qed
qed

lemma add_child_geometry:
  "geometry w1 = geometry w2 \<Longrightarrow> geometry (add_child m w1) = geometry (add_child m w2)"
  by (simp add: add_child_def)

lemma log_diag_geometry: "geometry (log_diag d w) = geometry w"
  by (simp add: log_diag_def)

lemma drawPath_geometry:
  "geometry w1 = geometry w2 \<Longrightarrow>
   map_option geometry (drawPath e w1) = map_option geometry (drawPath e w2)"
  by (simp add: drawPath_def Let_def option.map_comp comp_def add_child_def log_diag_def)

lemma drawRBSplineCurve_geometry:
  "geometry w1 = geometry w2 \<Longrightarrow>
   map_option geometry (drawRBSplineCurve e w1) = map_option geometry (drawRBSplineCurve e w2)"
  by (simp add: drawRBSplineCurve_def Let_def option.map_comp comp_def add_child_def)

lemma drawLine_geometry:
  "geometry w1 = geometry w2 \<Longrightarrow> geometry (drawLine e w1) = geometry (drawLine e w2)"
  by (simp add: drawLine_def Let_def add_child_def log_diag_def)

lemma drawTransMatrix_geometry: "geometry (drawTransMatrix e w) = geometry w"
  by (simp add: drawTransMatrix_def log_diag_def)

lemma draw_entity_geometry:
  assumes "geometry w1 = geometry w2"
  shows "map_option geometry (draw_entity e w1) = map_option geometry (draw_entity e w2)"
proof -
  consider (path) "etype e = ''106''" | (spline) "etype e = ''126''" | (line) "etype e = ''110''"
    | (simple) "etype e \<in> {''100'', ''102'', ''108'', ''116'', ''120'', ''122'',
        ''124'', ''128'', ''142'', ''144'', ''212'', ''214'', ''216'', ''314'', ''402'', ''406''}"
    | (unknown) "etype e \<notin> {''100'', ''102'', ''106'', ''108'', ''110'', ''116'', ''120'',
        ''122'', ''124'', ''126'', ''128'', ''142'', ''144'', ''212'', ''214'', ''216'', ''314'',
        ''402'', ''406''}"
    by blast
  then show ?thesis
  proof cases
    case path
    then show ?thesis
      using drawPath_geometry [OF assms, of e] by (simp add: draw_entity_def)
  next
    case spline
    then show ?thesis
      using drawRBSplineCurve_geometry [OF assms, of e] by (simp add: draw_entity_def)
  next
    case line
    then show ?thesis
      using drawLine_geometry [OF assms, of e] by (simp add: draw_entity_def)
  next
    case simple
    then show ?thesis
      using assms
      by (elim insertE emptyE;
          simp add: draw_entity_def drawTransMatrix_geometry Let_def
            drawCArc_def drawCCurve_def drawPlane_def drawPoint_def drawRSurface_def
            drawTCylinder_def drawRBSplineSurface_def drawCurveOnPSurface_def drawTPSurface_def
            drawGeneralNote_def drawLeaderArrow_def drawLinearDimension_def drawColor_def
            drawAInstance_def propertyEntity_def add_child_def)
  next
    case unknown
    then show ?thesis
      using assms by (simp add: draw_entity_def log_diag_geometry)
  qed
qed

lemma draw_entities_geometry:
  "geometry w1 = geometry w2 \<Longrightarrow>
   map_option geometry (draw_entities es w1) = map_option geometry (draw_entities es w2)"
proof (induction es arbitrary: w1 w2)
  case Nil
  then show ?case by simp
next
  case (Cons e es)
  show ?case
  proof (cases "draw_entity e w1")
    case None
    then have "draw_entity e w2 = None"
      using draw_entity_geometry [OF Cons.prems, of e] by simp
    with None show ?thesis by simp
  next
    case (Some v1)
    then obtain v2 where v2: "draw_entity e w2 = Some v2" "geometry v1 = geometry v2"
      using draw_entity_geometry [OF Cons.prems, of e] by (cases "draw_entity e w2") auto
    with Some show ?thesis
      using Cons.IH [of v1 v2] by simp
  qed
qed

lemma synthesize_outcome:
  "map_option snd (synthesize secs warns) = map_option snd (synthesize secs warns')"
proof (cases "load_sections secs")
  case (Inl e)
  then show ?thesis by (simp add: synthesize_def)
next
  case (Inr iges)
  have "map_option geometry (draw_entities (entities iges) \<lparr>geometry = \<lparr>children = []\<rparr>, console = warns\<rparr>)
      = map_option geometry (draw_entities (entities iges) \<lparr>geometry = \<lparr>children = []\<rparr>, console = warns'\<rparr>)"
    by (rule draw_entities_geometry) simp
  then have "map_option (\<lambda>w. Inr (geometry w) :: error + Group) (draw_entities (entities iges) \<lparr>geometry = \<lparr>children = []\<rparr>, console = warns\<rparr>)
      = map_option (\<lambda>w. Inr (geometry w)) (draw_entities (entities iges) \<lparr>geometry = \<lparr>children = []\<rparr>, console = warns'\<rparr>)"
    by (simp add: option.map_comp [of Inr geometry, unfolded comp_def, symmetric])
  with Inr show ?thesis
    by (simp add: synthesize_def option.map_comp comp_def)
qed

lemma no_sections_entities:
  "assembled_entities no_sections = [] \<and> declared_D no_sections = None"
  by code_simp

lemma synthesize_no_sections:
  "synthesize no_sections warns = Some (warns, Inr \<lparr>children = []\<rparr>)"
proof -
  have "\<not> count_mismatch (length (assembled_entities no_sections)) (declared_D no_sections)"
    using no_sections_entities by (simp add: count_mismatch_def)
  then obtain iges where i: "load_sections no_sections = Inr iges"
    by (simp add: load_sections_cases)
  then have "entities iges = []"
    using load_sections_entities no_sections_entities by simp
  with i show ?thesis by (simp add: synthesize_def)
qed

text \<open>
  C4. When every non-empty physical line of the input is shorter than 73 characters, the
  parse returns (it neither throws nor diverges), no entity is assembled, the group has no
  children, and the console holds exactly one diagnostic per line, in line order. More
  generally the short lines of an input never decide its outcome: two inputs with the same
  lines of 73 characters or more throw, return the same group, or fail to return alike, so
  adding or removing short lines anywhere never aborts a parse.
\<close>

theorem short_lines_skipped:
  "((\<forall>l\<in>set (physical_lines data). length l < 73) \<longrightarrow>
      assembled_entities (sections_of data) = [] \<and>
      parseIges data =
        Some (map (\<lambda>(i, l). LineTooShort i (length l) (take 50 l))
                (enumerate 0 (physical_lines data)),
              Inr \<lparr>children = []\<rparr>)) \<and>
   (filter (\<lambda>l. 73 \<le> length l) (physical_lines data)
      = filter (\<lambda>l. 73 \<le> length l) (physical_lines data') \<longrightarrow>
      map_option snd (parseIges data) = map_option snd (parseIges data'))"
proof (intro conjI impI)
  assume short: "\<forall>l\<in>set (physical_lines data). length l < 73"
  have scan: "scan_lines 0 (physical_lines data) (no_sections, []) =
      (no_sections, map (\<lambda>(i, l). LineTooShort i (length l) (take 50 l))
                      (enumerate 0 (physical_lines data)))"
    using scan_lines_short [OF short, of 0 no_sections "[]"] by simp
  show "assembled_entities (sections_of data) = []"
    by (simp add: sections_of_def scan no_sections_entities)
  show "parseIges data =
        Some (map (\<lambda>(i, l). LineTooShort i (length l) (take 50 l))
                (enumerate 0 (physical_lines data)),
              Inr \<lparr>children = []\<rparr>)"
    by (simp add: parseIges_def scan synthesize_no_sections)
next
  assume same: "filter (\<lambda>l. 73 \<le> length l) (physical_lines data)
      = filter (\<lambda>l. 73 \<le> length l) (physical_lines data')"
  have "sections_of data
      = fst (scan_lines 0 (filter (\<lambda>l. 73 \<le> length l) (physical_lines data)) (no_sections, []))"
    unfolding sections_of_def by (rule fst_scan_lines_long) simp
  also have "\<dots> = sections_of data'"
    unfolding sections_of_def same by (rule fst_scan_lines_long [symmetric]) simp
  finally have secs: "sections_of data = sections_of data'" .
  show "map_option snd (parseIges data) = map_option snd (parseIges data')"
    unfolding parseIges_sections secs by (rule synthesize_outcome)
qed

lemma short_lines_file_lines:
  "(\<forall>l\<in>set (physical_lines short_lines_file). length l < 73) \<and>
   map (\<lambda>(i, l). LineTooShort i (length l) (take 50 l)) (enumerate 0 (physical_lines short_lines_file))
     = [LineTooShort 0 5 ''short'', LineTooShort 1 10 ''also short'', LineTooShort 2 1 ''x'']"
  by code_simp

lemma short_lines_file_lengths: "map length (physical_lines short_lines_file) = [5, 10, 1]"
  by code_simp

lemma interrupted_point_file_lines:
  "filter (\<lambda>l. 73 \<le> length l) (physical_lines interrupted_point_file)
     = filter (\<lambda>l. 73 \<le> length l) (physical_lines point_file)"
  by code_simp

lemma point_file_parses:
  "parseIges point_file = Some ([], Inr \<lparr>children = [PointCloud [(Fin 10, Fin 20, Fin 30)]]\<rparr>)"
  by code_simp

theorem short_lines_skipped_witness:
  "map length (physical_lines short_lines_file) = [5, 10, 1] \<and>
   parseIges short_lines_file
     = Some ([LineTooShort 0 5 ''short'', LineTooShort 1 10 ''also short'', LineTooShort 2 1 ''x''],
             Inr \<lparr>children = []\<rparr>) \<and>
   filter (\<lambda>l. 73 \<le> length l) (physical_lines interrupted_point_file)
     = filter (\<lambda>l. 73 \<le> length l) (physical_lines point_file) \<and>
   map_option snd (parseIges interrupted_point_file)
     = Some (Inr \<lparr>children = [PointCloud [(Fin 10, Fin 20, Fin 30)]]\<rparr>)"
proof -
  have a: "parseIges short_lines_file
     = Some ([LineTooShort 0 5 ''short'', LineTooShort 1 10 ''also short'', LineTooShort 2 1 ''x''],
             Inr \<lparr>children = []\<rparr>)"
    using short_lines_skipped [of short_lines_file] short_lines_file_lines by simp
  have b: "map_option snd (parseIges interrupted_point_file)
     = Some (Inr \<lparr>children = [PointCloud [(Fin 10, Fin 20, Fin 30)]]\<rparr>)"
    using short_lines_skipped [of interrupted_point_file point_file]
      interrupted_point_file_lines point_file_parses by simp
  show ?thesis
    using a b short_lines_file_lengths interrupted_point_file_lines by blast
qed

section \<open>Parameter section and entity assembly\<close>

lemma parameter_loop_length: "length (parameter_loop sp i ents) = length ents"
proof (induction sp i ents rule: parameter_loop.induct)
  case (1 sp i ents)
  show ?case
  proof (cases "i < length sp")
    case True
    then show ?thesis
      using "1.IH" [OF True] by (subst parameter_loop.simps) simp
  next
    case False
    then show ?thesis by (subst parameter_loop.simps) simp
  qed
qed

lemma parameter_loop_nth:
  "j < length ents \<Longrightarrow>
   parameter_loop sp i ents ! j =
     (if i \<le> j \<and> j < length sp then set_params (ents ! j) (sp ! j) else ents ! j)"
proof (induction sp i ents rule: parameter_loop.induct)
  case (1 sp i ents)
  show ?case
  proof (cases "i < length sp")
    case False
    then show ?thesis by (subst parameter_loop.simps) auto
  next
    case True
    let ?ents = "if i < length ents then ents[i := set_params (ents ! i) (sp ! i)] else ents"
    have len: "j < length ?ents" using "1.prems" by simp
    have "parameter_loop sp i ents ! j = parameter_loop sp (Suc i) ?ents ! j"
      using True by (subst parameter_loop.simps) simp
    also have "\<dots> = (if Suc i \<le> j \<and> j < length sp then set_params (?ents ! j) (sp ! j) else ?ents ! j)"
      using "1.IH" [OF True len] .
    also have "\<dots> = (if i \<le> j \<and> j < length sp then set_params (ents ! j) (sp ! j) else ents ! j)"
      using True "1.prems" by (cases "i = j") (auto simp: nth_list_update)
    finally show ?thesis .
  qed
qed

lemma split_from_not_Nil: "split_from sep cur s \<noteq> []"
  by (induction sep cur s rule: split_from.induct) auto

lemma etype_directory_entity: "etype (directory_entity item) = ''0'' \<and> params (directory_entity item) = []"
proof -
  have "int_toString (Some 0) = ''0''" by code_simp
  then show ?thesis
    by (simp add: directory_entity_def new_Entity_def default_attribute_def Let_def)
qed

lemma assembly_by_position:
  assumes "ds = entities (parseDirection ddata new_IGES)"
    and "segs = butlast (js_split pdata '';'')"
    and "es = entities (parseParameter pdata (parseDirection ddata new_IGES))"
  shows "length es = length ds"
    and "i < length ds \<Longrightarrow> i < length segs \<Longrightarrow>
         etype (es ! i) = hd (js_split (segs ! i) '','') \<and>
         params (es ! i) = map parseIgesFloat (tl (js_split (segs ! i) '','')) \<and>
         attr (es ! i) = attr (ds ! i)"
    and "i < length ds \<Longrightarrow> \<not> i < length segs \<Longrightarrow>
         es ! i = ds ! i \<and> etype (es ! i) = ''0'' \<and> params (es ! i) = []"
proof -
  have es: "es = parameter_loop (map (\<lambda>item. js_split item '','') segs) 0 ds"
    using assms by (simp add: parseParameter_def Let_def)
  show "length es = length ds"
    by (simp add: es parameter_loop_length)
  show "etype (es ! i) = hd (js_split (segs ! i) '','') \<and>
         params (es ! i) = map parseIgesFloat (tl (js_split (segs ! i) '','')) \<and>
         attr (es ! i) = attr (ds ! i)" if "i < length ds" "i < length segs"
  proof -
    have "js_split (segs ! i) '','' \<noteq> []"
      by (simp add: js_split_def split_from_not_Nil)
    then show ?thesis
      using that by (cases "js_split (segs ! i) '',''") (simp_all add: es parameter_loop_nth set_params_def)
  qed
  show "es ! i = ds ! i \<and> etype (es ! i) = ''0'' \<and> params (es ! i) = []"
    if "i < length ds" "\<not> i < length segs"
  proof -
    have "es ! i = ds ! i"
      using that by (simp add: es parameter_loop_nth)
    moreover have "ds ! i \<in> set (map (\<lambda>k. directory_entity (substr ddata (160 * k) 160))
                     [0..<(length ddata + 159) div 160])"
      using that(1) assms(1) direction_loop_windows [of ddata 0 "[]"]
      by (simp add: parseDirection_def new_IGES_def)
    ultimately show ?thesis
      using etype_directory_entity by auto
  qed
qed

lemma parseParameter_spec_default:
  "termDelimiter st = '';'' \<Longrightarrow> fieldDelimiter st = '','' \<Longrightarrow>
   parseParameter_spec data st = parseParameter data st"
  by (simp add: parseParameter_spec_def parseParameter_def)

text \<open>
  C2 fails on the code. The file \<open>slash_file\<close> declares \<open>/\<close> as field delimiter and
  \<open>#\<close> as terminator; the global parser stores both, but the parameter parser splits on
  the literals \<open>;\<close> and \<open>,\<close>: it finds no terminator in \<open>116/10./20./30.#\<close>, drops the
  whole buffer as the last segment, and the entity keeps the type \<open>0\<close> and no parameters,
  so the parse returns an empty group. Splitting on the declared delimiters gives the entity
  the type \<open>116\<close> and the parameters 10, 20, 30. With the default delimiters the two
  parsers agree (\<open>parseParameter_spec_default\<close>).
\<close>

theorem delimiter_override_ignored:
  "fieldDelimiter (directory_state (sections_of slash_file)) = ''/'' \<and>
   termDelimiter (directory_state (sections_of slash_file)) = ''#'' \<and>
   paramSec (sections_of slash_file) = ''116/10./20./30.#'' \<and>
   map (\<lambda>e. (etype e, params e))
     (entities (parseParameter (paramSec (sections_of slash_file))
        (directory_state (sections_of slash_file))))
     = [(''0'', [])] \<and>
   map (\<lambda>e. (etype e, params e))
     (entities (parseParameter_spec (paramSec (sections_of slash_file))
        (directory_state (sections_of slash_file))))
     = [(''116'', [Fin 10, Fin 20, Fin 30])] \<and>
   parseIges slash_file = Some ([UncomplimentEntityType ''0''], Inr \<lparr>children = []\<rparr>)"
  by code_simp

text \<open>
  C10 fails on the code in its second part. The entity of a directory record that has no
  parameter segment does not carry the directory's entity type: the constructor reads the
  type off the default attribute before the directory fields are assigned, so the type is
  \<open>0\<close> whatever the record says. In \<open>no_parameter_file\<close> the record has entity type 116,
  which renders as \<open>116\<close>, the entity has type \<open>0\<close>, and the parse reports an unknown
  entity type instead of dispatching on 116. The other parts of the claim hold
  (\<open>assembly_by_position\<close>).
\<close>

theorem parameterless_entity_type:
  "map (\<lambda>e. (etype e, entityType (attr e), params e))
     (assembled_entities (sections_of no_parameter_file))
     = [(''0'', Some 116, [])] \<and>
   int_toString (Some 116) = ''116'' \<and>
   parseIges no_parameter_file = Some ([UncomplimentEntityType ''0''], Inr \<lparr>children = []\<rparr>)"
  by code_simp

end
